theory Spec2Isabelle
  imports Main
begin

section \<open>Strings and paths as the Python code sees them\<close>

text \<open>
  Text and file contents are \<open>string\<close>s (lists of 8-bit characters): a document's
  text stands for its UTF-8 encoding, so \<open>processed.encode('utf-8')\<close> is the identity.
  A \<open>pathlib\<close> path relative to \<open>src_dir\<close> is the list of its parts; the empty list
  is \<open>Path('.')\<close>. POSIX separators are assumed.
\<close>

type_synonym path = "string list"

text \<open>\<open>sep.join(parts)\<close>\<close>

fun join :: "string \<Rightarrow> string list \<Rightarrow> string" where
  "join sep [] = []"
| "join sep [x] = x"
| "join sep (x # y # ys) = x @ sep @ join sep (y # ys)"

text \<open>\<open>str(path)\<close>: the parts joined by the separator; \<open>str(Path('.'))\<close> is \<open>'.'\<close>.\<close>

definition str_path :: "path \<Rightarrow> string" where
  "str_path p = (if p = [] then ''.'' else join ''/'' p)"

text \<open>\<open>path.parent\<close> and \<open>path.name\<close> of a relative path with at least one part.\<close>

definition parent :: "path \<Rightarrow> path" where
  "parent p = butlast p"

definition name :: "path \<Rightarrow> string" where
  "name p = (if p = [] then [] else last p)"

text \<open>\<open>s.rfind(c)\<close>: the index of the last occurrence of \<open>c\<close>, or \<open>-1\<close>.\<close>

fun rfind_from :: "char \<Rightarrow> string \<Rightarrow> int \<Rightarrow> int \<Rightarrow> int" where
  "rfind_from c [] i found = found"
| "rfind_from c (x # xs) i found = rfind_from c xs (i + 1) (if x = c then i else found)"

definition rfind :: "char \<Rightarrow> string \<Rightarrow> int" where
  "rfind c s = rfind_from c s 0 (- 1)"

text \<open>
  \<open>PurePath.suffix\<close> and \<open>PurePath.stem\<close> (pathlib up to Python 3.13):
  \<^verbatim>\<open>i = name.rfind('.'); if 0 < i < len(name) - 1: name[i:] / name[:i]\<close>,
  else \<open>''\<close> / \<open>name\<close>.
\<close>

definition suffix :: "path \<Rightarrow> string" where
  "suffix p =
     (let n = name p; i = rfind (CHR ''.'') n
      in if 0 < i \<and> i < int (length n) - 1 then drop (nat i) n else [])"

definition stem :: "path \<Rightarrow> string" where
  "stem p =
     (let n = name p; i = rfind (CHR ''.'') n
      in if 0 < i \<and> i < int (length n) - 1 then take (nat i) n else n)"

text \<open>
  \<open>path / s\<close> for a string \<open>s\<close> without separator: pathlib drops an empty or
  \<open>'.'\<close> component.
\<close>

definition path_div :: "path \<Rightarrow> string \<Rightarrow> path" where
  "path_div p s = (if s = [] \<or> s = ''.'' then p else p @ [s])"

text \<open>\<open>str.lower()\<close> on ASCII letters, and \<open>str.replace\<close> of one character by another.\<close>

definition lower_char :: "char \<Rightarrow> char" where
  "lower_char c =
     (case map_of (zip ''ABCDEFGHIJKLMNOPQRSTUVWXYZ'' ''abcdefghijklmnopqrstuvwxyz'') c of
        Some l \<Rightarrow> l
      | None \<Rightarrow> c)"

definition lower :: "string \<Rightarrow> string" where
  "lower s = map lower_char s"

definition replace_char :: "char \<Rightarrow> char \<Rightarrow> string \<Rightarrow> string" where
  "replace_char a b s = map (\<lambda>c. if c = a then b else c) s"

section \<open>files.py: file objects and their remote identity\<close>

text \<open>The fields of \<open>config.yml\<close> that the file objects read.\<close>

record config =
  team :: string
  assets :: "string list"

text \<open>\<open>BaseFile.__init__\<close>: \<open>self._extension = str(self._path.suffix[1:]).lower()\<close>\<close>

definition extension :: "path \<Rightarrow> string" where
  "extension p = lower (drop 1 (suffix p))"

subsection \<open>HTMLfile\<close>

definition HTMLfile_generate_upload_path :: "path \<Rightarrow> string" where
  "HTMLfile_generate_upload_path p =
     (let upload_path = str_path (parent p)
      in if upload_path = ''.'' then [] else ''/'' @ upload_path)"

definition HTMLfile_generate_upload_URL :: "config \<Rightarrow> path \<Rightarrow> string" where
  "HTMLfile_generate_upload_URL cfg p =
     ''https://2020.igem.org/wiki/index.php?title=Team:'' @ team cfg
       @ HTMLfile_generate_upload_path p @ ''&action=edit''"

definition HTMLfile_generate_link_URL :: "config \<Rightarrow> path \<Rightarrow> string" where
  "HTMLfile_generate_link_URL cfg p =
     ''https://2020.igem.org/Team:'' @ team cfg @ HTMLfile_generate_upload_path p"

subsection \<open>CSSfile\<close>

definition CSSfile_generate_upload_path :: "path \<Rightarrow> string" where
  "CSSfile_generate_upload_path p =
     (let upload_path = path_div (parent p) (stem p);
          upload_path' = replace_char (CHR ''.'') (CHR ''-'') (str_path upload_path) @ ''CSS''
      in ''/'' @ upload_path')"

definition CSSfile_generate_upload_URL :: "config \<Rightarrow> path \<Rightarrow> string" where
  "CSSfile_generate_upload_URL cfg p =
     ''https://2020.igem.org/wiki/index.php?title=Template:'' @ team cfg
       @ CSSfile_generate_upload_path p @ ''&action=edit''"

definition CSSfile_generate_link_URL :: "config \<Rightarrow> path \<Rightarrow> string" where
  "CSSfile_generate_link_URL cfg p =
     ''https://2020.igem.org/Template:'' @ team cfg
       @ CSSfile_generate_upload_path p @ ''?action=raw&ctype=text/css''"

subsection \<open>JSfile\<close>

definition JSfile_generate_upload_path :: "path \<Rightarrow> string" where
  "JSfile_generate_upload_path p =
     (let upload_path = path_div (parent p) (stem p);
          upload_path' = replace_char (CHR ''.'') (CHR ''-'') (str_path upload_path) @ ''JS''
      in ''/'' @ upload_path')"

definition JSfile_generate_upload_URL :: "config \<Rightarrow> path \<Rightarrow> string" where
  "JSfile_generate_upload_URL cfg p =
     ''https://2020.igem.org/wiki/index.php?title=Template:'' @ team cfg
       @ JSfile_generate_upload_path p @ ''&action=edit''"

definition JSfile_generate_link_URL :: "config \<Rightarrow> path \<Rightarrow> string" where
  "JSfile_generate_link_URL cfg p =
     ''https://2020.igem.org/Template:'' @ team cfg
       @ JSfile_generate_upload_path p @ ''?action=raw&ctype=text/javascript''"

subsection \<open>OtherFile\<close>

definition OtherFile_generate_upload_filename :: "config \<Rightarrow> path \<Rightarrow> string" where
  "OtherFile_generate_upload_filename cfg p =
     (if length (assets cfg) = 1
      then ''T--'' @ team cfg @ ''--'' @ join ''--'' (drop 1 p)
      else ''T--'' @ team cfg @ ''--'' @ join ''--'' p)"


section \<open>The sync map (upload_map.yml) and the world around a run\<close>

text \<open>
  An entry of the map is a dictionary with the keys \<open>'md5'\<close>, \<open>'link_URL'\<close> and (for
  assets) \<open>'upload_filename'\<close>; main.py writes the first two always, but a stored entry
  may lack any of them (\<open>None\<close>). main.py only subscripts a stored entry
  (\<open>asset['md5']\<close>, line 179), which raises on a stored value that is no dictionary as
  it does on a dictionary without \<open>'md5'\<close>; such a value is the entry without keys.
  The value bound to a top-level key of the loaded YAML is a mapping of path strings to
  entries, or something that is not a \<open>dict\<close> (a scalar, a list, \<open>None\<close>). The map in
  memory is the Python dictionary of the top-level keys.
\<close>

record entry =
  md5 :: "string option"
  link_URL :: "string option"
  upload_filename :: "string option"

datatype yaml_value = Mapping "string \<rightharpoonup> entry" | NotMapping

type_synonym upload_map = "string \<rightharpoonup> yaml_value"

text \<open>
  What \<open>upload_map.yml\<close> holds when it is opened: nothing readable (\<open>open\<close> or
  \<open>yaml.safe_load\<close> raises), a YAML value that is no dictionary (\<open>.keys()\<close> raises
  AttributeError), or a dictionary. Dumping a map and loading it again gives the same
  dictionary.
\<close>

datatype map_file = Unreadable | NotADict | Dict upload_map

text \<open>
  How a run can end other than by returning: \<open>SystemExit\<close> is the bare
  \<open>raise SystemExit\<close> of main.py (lines 39, 55, 96, 194, 213; no exit code is given
  anywhere), \<open>OtherException\<close> an exception that nothing catches. The interpreter ends
  with status 0 when \<open>main\<close> returns and on a SystemExit without code, and with
  status 1 on an uncaught exception.
\<close>

datatype exc = SystemExit | OtherException

definition exit_status :: "exc option \<Rightarrow> nat" where
  "exit_status r = (case r of None \<Rightarrow> 0 | Some SystemExit \<Rightarrow> 0 | Some OtherException \<Rightarrow> 1)"

datatype hash_alg = MD5 | SHA1

text \<open>The file objects of files.py as main.py reads them.\<close>

record code_file =
  cf_path :: path
  cf_extension :: string
  cf_upload_URL :: string
  cf_link_URL :: string

record other_file =
  of_path :: path
  of_upload_filename :: string
  of_md5_hash :: string

text \<open>
  Everything outside the two source files, fixed for one run: the files on disk, the
  collaborators \<open>browser_helpers\<close> and \<open>code_parsers\<close>, and \<open>hashlib\<close>.
  \<open>iGEM_upload_file\<close> gives \<open>None\<close> when the call raises and otherwise the
  file object's \<open>upload_URL\<close> after the call; the boolean collaborators are \<open>False\<close>
  when the call raises. Steps of \<open>main\<close> that touch neither the map nor an upload
  (clearing \<open>build_dir\<close>, the cookie jar) are taken to succeed.
\<close>

record env =
  config_yml :: "config option"
  upload_map_yml :: map_file
  iGEM_login :: bool
  walk :: "path list"
  read_bytes :: "path \<Rightarrow> string option"
  read_text :: "path \<Rightarrow> string option"
  hexdigest :: "hash_alg \<Rightarrow> string \<Rightarrow> string"
  iGEM_upload_file :: "other_file \<Rightarrow> string option"
  HTMLparser :: "config \<Rightarrow> path \<Rightarrow> string \<Rightarrow> upload_map \<Rightarrow> string"
  CSSparser :: "config \<Rightarrow> path \<Rightarrow> string \<Rightarrow> upload_map \<Rightarrow> string"
  JSparser :: "string \<Rightarrow> string"
  write_build :: "path \<Rightarrow> string \<Rightarrow> bool"
  iGEM_upload_page :: "string \<Rightarrow> string \<Rightarrow> bool"
  dump_ok :: bool

text \<open>
  What a run does to the outside, in order: the calls of \<open>iGEM_upload_file\<close>,
  \<open>write_upload_map\<close>, \<open>open(file_object.src_path)\<close>, the write of the build file and
  \<open>iGEM_upload_page\<close>. The boolean is \<open>False\<close> when the call raised.
\<close>

datatype event =
    Upload_file path bool
  | Write_upload_map upload_map
  | Read_source path bool
  | Write_build path bool
  | Upload_page path bool

fun is_asset_upload :: "event \<Rightarrow> bool" where
  "is_asset_upload (Upload_file p ok) = True"
| "is_asset_upload e = False"

fun is_document_event :: "event \<Rightarrow> bool" where
  "is_document_event (Read_source p ok) = True"
| "is_document_event (Write_build p ok) = True"
| "is_document_event (Upload_page p ok) = True"
| "is_document_event e = False"

fun is_upload :: "event \<Rightarrow> bool" where
  "is_upload (Upload_file p ok) = True"
| "is_upload (Upload_page p ok) = True"
| "is_upload e = False"

definition uploads :: "event list \<Rightarrow> event list" where
  "uploads evs = filter is_upload evs"

text \<open>
  \<open>write_upload_map\<close> swallows a failure of \<open>open\<close>/\<open>yaml.dump\<close>; the file then keeps
  its contents. \<open>persisted\<close> is the file after the writes of a run.
\<close>

fun persisted :: "env \<Rightarrow> event list \<Rightarrow> map_file \<Rightarrow> map_file" where
  "persisted env [] d = d"
| "persisted env (Write_upload_map um # evs) d = persisted env evs (if dump_ok env then Dict um else d)"
| "persisted env (e # evs) d = persisted env evs d"

section \<open>main.py: loading the map\<close>

definition category_keys :: "string list" where
  "category_keys = [''assets'', ''html'', ''css'', ''js'']"

definition empty_upload_map :: upload_map where
  "empty_upload_map =
     [''assets'' \<mapsto> Mapping Map.empty, ''html'' \<mapsto> Mapping Map.empty,
      ''css'' \<mapsto> Mapping Map.empty, ''js'' \<mapsto> Mapping Map.empty]"

text \<open>The loop of lines 50-55: a missing key is set to \<open>{}\<close>, a value that is no dict raises SystemExit.\<close>

fun check_keys :: "string list \<Rightarrow> upload_map \<Rightarrow> exc + upload_map" where
  "check_keys [] um = Inr um"
| "check_keys (key # keys) um =
     (case um key of
        None \<Rightarrow> check_keys keys (um(key \<mapsto> Mapping Map.empty))
      | Some (Mapping m) \<Rightarrow> check_keys keys um
      | Some NotMapping \<Rightarrow> Inl SystemExit)"

text \<open>The body of the \<open>try\<close> of lines 45-55.\<close>

definition load_try :: "map_file \<Rightarrow> exc + upload_map" where
  "load_try f =
     (case f of
        Unreadable \<Rightarrow> Inl OtherException
      | NotADict \<Rightarrow> Inl OtherException
      | Dict um \<Rightarrow> check_keys category_keys um)"

text \<open>The bare \<open>except:\<close> of line 56 catches every exception, SystemExit included.\<close>

definition load_upload_map :: "map_file \<Rightarrow> upload_map" where
  "load_upload_map f = (case load_try f of Inl e \<Rightarrow> empty_upload_map | Inr um \<Rightarrow> um)"

text \<open>
  \<open>upload_map[key]\<close> for a category key, and \<open>upload_map[key][path_str] = e\<close>. After
  loading, every category key is bound to a mapping (lemma \<open>load_upload_map_sections\<close>).
\<close>

definition sec :: "upload_map \<Rightarrow> string \<Rightarrow> (string \<rightharpoonup> entry)" where
  "sec um key = (case um key of Some (Mapping m) \<Rightarrow> m | Some NotMapping \<Rightarrow> Map.empty | None \<Rightarrow> Map.empty)"

definition set_entry :: "upload_map \<Rightarrow> string \<Rightarrow> string \<Rightarrow> entry \<Rightarrow> upload_map" where
  "set_entry um key path_str e = um(key \<mapsto> Mapping ((sec um key)(path_str \<mapsto> e)))"

text \<open>
  \<open>x in d.keys()\<close>. The keys of every section are \<open>str\<close> objects (from
  \<open>yaml.safe_load\<close>, or inserted as \<open>str(file_object.path)\<close>); a \<open>pathlib\<close> path
  compares unequal to every \<open>str\<close>, so it is never found among them.
\<close>

datatype pykey = Str string | PathObj path

fun key_in :: "pykey \<Rightarrow> (string \<rightharpoonup> entry) \<Rightarrow> bool" where
  "key_in (Str s) m = (m s \<noteq> None)"
| "key_in (PathObj p) m = False"


section \<open>files.py: constructing the file objects\<close>

definition HTMLfile :: "config \<Rightarrow> path \<Rightarrow> code_file" where
  "HTMLfile cfg p =
     \<lparr>cf_path = p, cf_extension = extension p,
      cf_upload_URL = HTMLfile_generate_upload_URL cfg p,
      cf_link_URL = HTMLfile_generate_link_URL cfg p\<rparr>"

definition CSSfile :: "config \<Rightarrow> path \<Rightarrow> code_file" where
  "CSSfile cfg p =
     \<lparr>cf_path = p, cf_extension = extension p,
      cf_upload_URL = CSSfile_generate_upload_URL cfg p,
      cf_link_URL = CSSfile_generate_link_URL cfg p\<rparr>"

definition JSfile :: "config \<Rightarrow> path \<Rightarrow> code_file" where
  "JSfile cfg p =
     \<lparr>cf_path = p, cf_extension = extension p,
      cf_upload_URL = JSfile_generate_upload_URL cfg p,
      cf_link_URL = JSfile_generate_link_URL cfg p\<rparr>"

text \<open>
  \<open>OtherFile._generate_md5_hash\<close>: the file is read in chunks of 1024 bytes until
  \<open>file.read\<close> gives \<open>b''\<close>, each chunk is fed to the hash object made by
  \<open>hashlib.sha1()\<close>, and the hex digest of all that was fed is returned. \<open>None\<close>
  when the file cannot be opened.
\<close>

function chunks :: "nat \<Rightarrow> string \<Rightarrow> string list" where
  "chunks n bs = (if n = 0 \<or> bs = [] then [] else take n bs # chunks n (drop n bs))"
  by pat_completeness auto
termination
  by (relation "measure (\<lambda>(n, bs). length bs)") auto

declare chunks.simps [simp del]

definition OtherFile_generate_md5_hash :: "env \<Rightarrow> path \<Rightarrow> string option" where
  "OtherFile_generate_md5_hash env p =
     (case read_bytes env p of
        None \<Rightarrow> None
      | Some bs \<Rightarrow> Some (hexdigest env SHA1 (fold (\<lambda>chunk fed. fed @ chunk) (chunks 1024 bs) [])))"

definition OtherFile :: "env \<Rightarrow> config \<Rightarrow> path \<Rightarrow> other_file option" where
  "OtherFile env cfg p =
     (case OtherFile_generate_md5_hash env p of
        None \<Rightarrow> None
      | Some h \<Rightarrow>
          Some \<lparr>of_path = p,
                of_upload_filename = OtherFile_generate_upload_filename cfg p,
                of_md5_hash = h\<rparr>)"

text \<open>Line 257 of main.py: \<open>md5(processed.encode('utf-8')).hexdigest()\<close>\<close>

definition build_hash :: "env \<Rightarrow> string \<Rightarrow> string" where
  "build_hash env processed = hexdigest env MD5 processed"

section \<open>main.py: classifying the source tree (lines 101-165)\<close>

text \<open>The four dictionaries of file objects, keyed by path, in insertion order.\<close>

record files =
  HTMLfiles :: "(path \<times> code_file) list"
  CSSfiles :: "(path \<times> code_file) list"
  JSfiles :: "(path \<times> code_file) list"
  OtherFiles :: "(path \<times> other_file) list"

definition no_files :: files where
  "no_files = \<lparr>HTMLfiles = [], CSSfiles = [], JSfiles = [], OtherFiles = []\<rparr>"

text \<open>\<open>d[k] = v\<close> on a dictionary that keeps insertion order.\<close>

fun dict_set :: "'k \<Rightarrow> 'v \<Rightarrow> ('k \<times> 'v) list \<Rightarrow> ('k \<times> 'v) list" where
  "dict_set k v [] = [(k, v)]"
| "dict_set k v ((k', v') # d) = (if k' = k then (k, v) # d else (k', v') # dict_set k v d)"

definition asset_extensions :: "string list" where
  "asset_extensions =
     [''png'', ''gif'', ''jpg'', ''jpeg'', ''pdf'', ''ppt'', ''txt'',
      ''zip'', ''mp3'', ''mp4'', ''webm'', ''mov'', ''swf'', ''xls'',
      ''xlsx'', ''docx'', ''pptx'', ''csv'', ''m'', ''ogg'', ''gb'',
      ''tif'', ''tiff'', ''fcs'', ''otf'', ''eot'', ''ttf'', ''woff'', ''svg'']"

text \<open>
  Lines 124-128 (and 136-140, 148-152): the test is
  \<open>file_object.path not in upload_map[key].keys()\<close>, on the path object; the entry is
  stored under \<open>str(file_object.path)\<close>.
\<close>

definition add_code_entry :: "string \<Rightarrow> code_file \<Rightarrow> upload_map \<Rightarrow> upload_map" where
  "add_code_entry key file_object um =
     (if key_in (PathObj (cf_path file_object)) (sec um key) then um
      else set_entry um key (str_path (cf_path file_object))
             \<lparr>md5 = Some [], link_URL = Some (cf_link_URL file_object), upload_filename = None\<rparr>)"

text \<open>
  The body of the loop over the files of \<open>os.walk(src_dir)\<close>. Constructing an
  \<open>OtherFile\<close> reads the file; a failure there is not caught.
\<close>

definition classify :: "env \<Rightarrow> config \<Rightarrow> path \<Rightarrow> files \<times> upload_map \<Rightarrow> exc + files \<times> upload_map" where
  "classify env cfg infile s =
     (let fs = fst s; um = snd s; ext = extension infile
      in if ext = ''html'' then
           (let file_object = HTMLfile cfg infile
            in Inr (fs\<lparr>HTMLfiles := dict_set (cf_path file_object) file_object (HTMLfiles fs)\<rparr>,
                    add_code_entry ''html'' file_object um))
         else if ext = ''css'' then
           (let file_object = CSSfile cfg infile
            in Inr (fs\<lparr>CSSfiles := dict_set (cf_path file_object) file_object (CSSfiles fs)\<rparr>,
                    add_code_entry ''css'' file_object um))
         else if ext = ''js'' then
           (let file_object = JSfile cfg infile
            in Inr (fs\<lparr>JSfiles := dict_set (cf_path file_object) file_object (JSfiles fs)\<rparr>,
                    add_code_entry ''js'' file_object um))
         else if lower ext \<in> set asset_extensions then
           (case OtherFile env cfg infile of
              None \<Rightarrow> Inl OtherException
            | Some file_object \<Rightarrow>
                Inr (fs\<lparr>OtherFiles := dict_set (of_path file_object) file_object (OtherFiles fs)\<rparr>, um))
         else Inr (fs, um))"

fun classify_all :: "env \<Rightarrow> config \<Rightarrow> path list \<Rightarrow> files \<times> upload_map \<Rightarrow> exc + files \<times> upload_map" where
  "classify_all env cfg [] s = Inr s"
| "classify_all env cfg (infile # rest) s =
     (case classify env cfg infile s of
        Inl e \<Rightarrow> Inl e
      | Inr s' \<Rightarrow> classify_all env cfg rest s')"

section \<open>main.py: the asset phase (lines 167-219)\<close>

text \<open>
  One asset. The inner loop over the keys of \<open>upload_map['assets']\<close> finds the key equal
  to \<open>str(path)\<close>, if there is one; \<open>asset['md5']\<close> (line 179) raises on a stored
  entry without that key, and nothing catches it. A failed upload writes the map and
  raises SystemExit.
\<close>

definition upload_asset :: "env \<Rightarrow> other_file \<Rightarrow> upload_map \<Rightarrow> exc option \<times> upload_map \<times> event list" where
  "upload_asset env file_object um =
     (let path_str = str_path (of_path file_object)
      in case sec um ''assets'' path_str of
           Some asset \<Rightarrow>
             (case md5 asset of
                None \<Rightarrow> (Some OtherException, um, [])
              | Some stored \<Rightarrow>
                  if of_md5_hash file_object = stored then (None, um, [])
                  else
                    (case iGEM_upload_file env file_object of
                       None \<Rightarrow>
                         (Some SystemExit, um, [Upload_file (of_path file_object) False, Write_upload_map um])
                     | Some url \<Rightarrow>
                         (None,
                          set_entry um ''assets'' path_str
                            (asset\<lparr>md5 := Some (of_md5_hash file_object), link_URL := Some url\<rparr>),
                          [Upload_file (of_path file_object) True])))
         | None \<Rightarrow>
             (case iGEM_upload_file env file_object of
                None \<Rightarrow>
                  (Some SystemExit, um, [Upload_file (of_path file_object) False, Write_upload_map um])
              | Some url \<Rightarrow>
                  (None,
                   set_entry um ''assets'' path_str
                     \<lparr>md5 = Some (of_md5_hash file_object), link_URL = Some url,
                      upload_filename = Some (of_upload_filename file_object)\<rparr>,
                   [Upload_file (of_path file_object) True])))"

fun upload_assets :: "env \<Rightarrow> other_file list \<Rightarrow> upload_map \<Rightarrow> exc option \<times> upload_map \<times> event list" where
  "upload_assets env [] um = (None, um, [])"
| "upload_assets env (file_object # rest) um =
     (case upload_asset env file_object um of
        (Some e, um', evs) \<Rightarrow> (Some e, um', evs)
      | (None, um', evs) \<Rightarrow>
          (case upload_assets env rest um' of
             (r, um'', evs') \<Rightarrow> (r, um'', evs @ evs')))"

section \<open>main.py: the document phase (lines 225-286)\<close>

text \<open>
  \<open>processed\<close> stays \<open>None\<close> for an extension other than the three, and
  \<open>processed.encode\<close> then raises.
\<close>

definition parse :: "env \<Rightarrow> config \<Rightarrow> code_file \<Rightarrow> string \<Rightarrow> upload_map \<Rightarrow> string option" where
  "parse env cfg file_object contents um =
     (let ext = cf_extension file_object
      in if ext = ''html'' then Some (HTMLparser env cfg (cf_path file_object) contents um)
         else if ext = ''css'' then Some (CSSparser env cfg (cf_path file_object) contents um)
         else if ext = ''js'' then Some (JSparser env contents)
         else None)"

text \<open>
  One document: the body of the inner loop. A source that cannot be read, a build file
  that cannot be written and a failed upload are logged and the loop goes on with the
  next file; a missing map entry or \<open>'md5'\<close> key (KeyError) is not caught.
\<close>

definition process_document :: "env \<Rightarrow> config \<Rightarrow> code_file \<Rightarrow> upload_map \<Rightarrow> exc option \<times> upload_map \<times> event list" where
  "process_document env cfg file_object um =
     (let p = cf_path file_object; path_str = str_path p; ext = cf_extension file_object
      in case read_text env p of
           None \<Rightarrow> (None, um, [Read_source p False])
         | Some contents \<Rightarrow>
             (case parse env cfg file_object contents um of
                None \<Rightarrow> (Some OtherException, um, [Read_source p True])
              | Some processed \<Rightarrow>
                  (case sec um ext path_str of
                     None \<Rightarrow> (Some OtherException, um, [Read_source p True])
                   | Some e \<Rightarrow>
                       (case md5 e of
                          None \<Rightarrow> (Some OtherException, um, [Read_source p True])
                        | Some stored \<Rightarrow>
                            if stored = build_hash env processed then (None, um, [Read_source p True])
                            else
                              (let um' = set_entry um ext path_str (e\<lparr>md5 := Some (build_hash env processed)\<rparr>)
                               in if write_build env p processed then
                                    (None, um',
                                     [Read_source p True, Write_build p True,
                                      Upload_page p (iGEM_upload_page env processed (cf_upload_URL file_object))])
                                  else (None, um', [Read_source p True, Write_build p False]))))))"

fun process_documents :: "env \<Rightarrow> config \<Rightarrow> code_file list \<Rightarrow> upload_map \<Rightarrow> exc option \<times> upload_map \<times> event list" where
  "process_documents env cfg [] um = (None, um, [])"
| "process_documents env cfg (file_object # rest) um =
     (case process_document env cfg file_object um of
        (Some e, um', evs) \<Rightarrow> (Some e, um', evs)
      | (None, um', evs) \<Rightarrow>
          (case process_documents env cfg rest um' of
             (r, um'', evs') \<Rightarrow> (r, um'', evs @ evs')))"

section \<open>main.py: main\<close>

text \<open>
  The result of a run: how it ended (\<open>None\<close>: \<open>main\<close> returned), the map in memory
  at the end, and the events in order.
\<close>

definition main :: "env \<Rightarrow> exc option \<times> upload_map \<times> event list" where
  "main env =
     (case config_yml env of
        None \<Rightarrow> (Some SystemExit, Map.empty, [])
      | Some cfg \<Rightarrow>
          (let um0 = load_upload_map (upload_map_yml env)
           in if iGEM_login env then
                (case classify_all env cfg (walk env) (no_files, um0) of
                   Inl e \<Rightarrow> (Some e, um0, [])
                 | Inr s \<Rightarrow>
                     (case upload_assets env (map snd (OtherFiles (fst s))) (snd s) of
                        (Some e, um2, evs) \<Rightarrow> (Some e, um2, evs)
                      | (None, um2, evs) \<Rightarrow>
                          (case process_documents env cfg
                                  (map snd (HTMLfiles (fst s)) @ map snd (CSSfiles (fst s))
                                     @ map snd (JSfiles (fst s))) um2 of
                             (Some e, um3, evs') \<Rightarrow>
                               (Some e, um3, evs @ [Write_upload_map um2] @ evs')
                           | (None, um3, evs') \<Rightarrow>
                               (None, um3, evs @ [Write_upload_map um2] @ evs' @ [Write_upload_map um3]))))
              else (Some SystemExit, um0, [])))"


section \<open>Concrete runs\<close>

text \<open>
  A source tree with one page and one asset, both empty files, and collaborators that
  succeed; the parsers leave the empty text as it is. \<open>hashlib_of_empty\<close> gives the
  hashlib digests of the empty input, the only input hashed in these runs.
\<close>

definition hashlib_of_empty :: "hash_alg \<Rightarrow> string \<Rightarrow> string" where
  "hashlib_of_empty alg bs =
     (case alg of
        MD5 \<Rightarrow> ''d41d8cd98f00b204e9800998ecf8427e''
      | SHA1 \<Rightarrow> ''da39a3ee5e6b4b0d3255bfef95601890afd80709'')"

definition example_config :: config where
  "example_config = \<lparr>team = ''MYTEAM'', assets = [''assets'']\<rparr>"

definition example_env :: env where
  "example_env =
     \<lparr>config_yml = Some example_config,
      upload_map_yml = Unreadable,
      iGEM_login = True,
      walk = [[''index.html''], [''assets'', ''logo.png'']],
      read_bytes = (\<lambda>p. Some []),
      read_text = (\<lambda>p. Some []),
      hexdigest = hashlib_of_empty,
      iGEM_upload_file = (\<lambda>file_object. Some (''https://2020.igem.org/wiki/images/'' @ of_upload_filename file_object)),
      HTMLparser = (\<lambda>cfg p contents um. contents),
      CSSparser = (\<lambda>cfg p contents um. contents),
      JSparser = (\<lambda>contents. contents),
      write_build = (\<lambda>p processed. True),
      iGEM_upload_page = (\<lambda>processed url. True),
      dump_ok = True\<rparr>"

text \<open>The same world at the next run: only \<open>upload_map.yml\<close> is what the run before left.\<close>

definition rerun :: "env \<Rightarrow> env" where
  "rerun env = env\<lparr>upload_map_yml := persisted env (snd (snd (main env))) (upload_map_yml env)\<rparr>"

text \<open>The same world, but every page upload raises.\<close>

definition failing_page_env :: env where
  "failing_page_env = example_env\<lparr>iGEM_upload_page := (\<lambda>processed url. False)\<rparr>"

text \<open>
  A stored map that knows the asset with its current digest, and whose \<open>js\<close> key is bound
  to a scalar.
\<close>

definition js_scalar_map :: upload_map where
  "js_scalar_map =
     [''assets'' \<mapsto> Mapping [''assets/logo.png'' \<mapsto>
         \<lparr>md5 = Some ''da39a3ee5e6b4b0d3255bfef95601890afd80709'',
          link_URL = Some ''https://2020.igem.org/wiki/images/T--MYTEAM--logo.png'',
          upload_filename = Some ''T--MYTEAM--logo.png''\<rparr>],
      ''html'' \<mapsto> Mapping Map.empty,
      ''css'' \<mapsto> Mapping Map.empty,
      ''js'' \<mapsto> NotMapping]"

definition js_scalar_env :: env where
  "js_scalar_env = example_env\<lparr>upload_map_yml := Dict js_scalar_map\<rparr>"

text \<open>The stored digest of a path in a category of a map file.\<close>

definition stored_md5 :: "map_file \<Rightarrow> string \<Rightarrow> string \<Rightarrow> string option" where
  "stored_md5 f key path_str =
     (case f of
        Dict um \<Rightarrow> (case sec um key path_str of None \<Rightarrow> None | Some e \<Rightarrow> md5 e)
      | Unreadable \<Rightarrow> None
      | NotADict \<Rightarrow> None)"


section \<open>Notions used to state the properties\<close>

text \<open>
  A file name as \<open>os.walk\<close> yields it: not empty, not \<open>.\<close> or \<open>..\<close>, and without a
  separator. A valid path has at least one part and only such parts.
\<close>

definition valid_name :: "string \<Rightarrow> bool" where
  "valid_name c = (c \<noteq> [] \<and> c \<noteq> ''.'' \<and> c \<noteq> ''..'' \<and> CHR ''/'' \<notin> set c)"

definition valid_path :: "path \<Rightarrow> bool" where
  "valid_path p = (p \<noteq> [] \<and> list_all valid_name p)"

text \<open>An upload path that still holds a path separator after its leading one.\<close>

definition keeps_separator :: "string \<Rightarrow> bool" where
  "keeps_separator upload_path = (CHR ''/'' \<in> set (drop 1 upload_path))"

text \<open>The asset phase calls \<open>iGEM_upload_file\<close> for a file that is new or whose digest changed.\<close>

definition needs_upload :: "other_file \<Rightarrow> upload_map \<Rightarrow> bool" where
  "needs_upload file_object um =
     (case sec um ''assets'' (str_path (of_path file_object)) of
        Some asset \<Rightarrow>
          (case md5 asset of None \<Rightarrow> False | Some stored \<Rightarrow> of_md5_hash file_object \<noteq> stored)
      | None \<Rightarrow> True)"

text \<open>A map that records an asset under its path string with the asset's current digest.\<close>

definition recorded :: "upload_map \<Rightarrow> other_file \<Rightarrow> bool" where
  "recorded um file_object =
     (map_option md5 (sec um ''assets'' (str_path (of_path file_object)))
        = Some (Some (of_md5_hash file_object)))"

text \<open>
  A tree with two documents and three assets: \<open>a.png\<close> is stored with another digest,
  \<open>b.png\<close> with its current one, \<open>n.png\<close> is new. Every collaborator succeeds.
\<close>

definition mixed_map :: upload_map where
  "mixed_map =
     [''assets'' \<mapsto> Mapping
        [''assets/a.png'' \<mapsto>
           \<lparr>md5 = Some ''0000000000000000000000000000000000000000'',
            link_URL = Some ''https://2020.igem.org/wiki/images/old/T--MYTEAM--a.png'',
            upload_filename = Some ''T--MYTEAM--a.png''\<rparr>,
         ''assets/b.png'' \<mapsto>
           \<lparr>md5 = Some ''da39a3ee5e6b4b0d3255bfef95601890afd80709'',
            link_URL = Some ''https://2020.igem.org/wiki/images/T--MYTEAM--b.png'',
            upload_filename = Some ''T--MYTEAM--b.png''\<rparr>],
      ''html'' \<mapsto> Mapping Map.empty,
      ''css'' \<mapsto> Mapping Map.empty,
      ''js'' \<mapsto> Mapping Map.empty]"

definition mixed_env :: env where
  "mixed_env =
     example_env
       \<lparr>upload_map_yml := Dict mixed_map,
        walk := [[''index.html''], [''css'', ''style.css''],
                 [''assets'', ''a.png''], [''assets'', ''b.png''], [''assets'', ''n.png'']]\<rparr>"

text \<open>
  The same tree with two more assets, \<open>c.png\<close> and \<open>d.png\<close>, both new; the upload of
  \<open>c.png\<close> raises.
\<close>

definition failing_asset_env :: env where
  "failing_asset_env =
     mixed_env
       \<lparr>walk := walk mixed_env @ [[''assets'', ''c.png''], [''assets'', ''d.png'']],
        iGEM_upload_file :=
          (\<lambda>file_object.
             if of_path file_object = [''assets'', ''c.png''] then None
             else Some (''https://2020.igem.org/wiki/images/'' @ of_upload_filename file_object))\<rparr>"

text \<open>A stored map without the \<open>css\<close> key.\<close>

definition css_missing_map :: upload_map where
  "css_missing_map =
     [''assets'' \<mapsto> Mapping [''assets/logo.png'' \<mapsto>
         \<lparr>md5 = Some ''da39a3ee5e6b4b0d3255bfef95601890afd80709'',
          link_URL = Some ''https://2020.igem.org/wiki/images/T--MYTEAM--logo.png'',
          upload_filename = Some ''T--MYTEAM--logo.png''\<rparr>],
      ''html'' \<mapsto> Mapping Map.empty,
      ''js'' \<mapsto> Mapping Map.empty]"

text \<open>
  Notions for following the documents through a run: the dictionaries of documents in the
  order main.py walks them; the file object of a path by its extension; the category and
  key under which a document's entry is stored; a document whose stored digest is the
  empty string; and what classification keeps true of the dictionaries (distinct keys,
  each bound to the file object of that key, of the dictionary's extension).
\<close>

definition documents :: "files \<Rightarrow> code_file list" where
  "documents fs = map snd (HTMLfiles fs) @ map snd (CSSfiles fs) @ map snd (JSfiles fs)"

definition is_code :: "path \<Rightarrow> bool" where
  "is_code p = (extension p = ''html'' \<or> extension p = ''css'' \<or> extension p = ''js'')"

definition code_file_of :: "config \<Rightarrow> path \<Rightarrow> code_file" where
  "code_file_of cfg p =
     (if extension p = ''html'' then HTMLfile cfg p
      else if extension p = ''css'' then CSSfile cfg p
      else JSfile cfg p)"

definition map_key :: "code_file \<Rightarrow> string \<times> string" where
  "map_key file_object = (cf_extension file_object, str_path (cf_path file_object))"

definition reset :: "upload_map \<Rightarrow> code_file \<Rightarrow> bool" where
  "reset um file_object =
     (map_option md5 (sec um (cf_extension file_object) (str_path (cf_path file_object)))
        = Some (Some []))"

definition dict_ok :: "config \<Rightarrow> string \<Rightarrow> (path \<times> code_file) list \<Rightarrow> bool" where
  "dict_ok cfg ext d =
     (distinct (map fst d)
      \<and> list_all (\<lambda>kv. snd kv = code_file_of cfg (fst kv) \<and> extension (fst kv) = ext) d)"

definition files_ok :: "config \<Rightarrow> files \<Rightarrow> bool" where
  "files_ok cfg fs =
     (dict_ok cfg ''html'' (HTMLfiles fs) \<and> dict_ok cfg ''css'' (CSSfiles fs)
      \<and> dict_ok cfg ''js'' (JSfiles fs))"

definition doc_keys :: "files \<Rightarrow> path set" where
  "doc_keys fs = fst ` set (HTMLfiles fs) \<union> fst ` set (CSSfiles fs) \<union> fst ` set (JSfiles fs)"

section \<open>Remote identities (files.py)\<close>

lemma join_slash_not_dot:
  "ps \<noteq> [] \<Longrightarrow> list_all valid_name ps \<Longrightarrow> join ''/'' ps \<noteq> ''.''"
proof (cases ps)
  case Nil
  assume "ps \<noteq> []" with Nil show ?thesis by simp
next
  case (Cons x xs)
  assume v: "list_all valid_name ps"
  show ?thesis
  proof (cases xs)
    case Nil
    with Cons v show ?thesis by (simp add: valid_name_def)
  next
    case (Cons y ys)
    with \<open>ps = x # xs\<close> have "CHR ''/'' \<in> set (join ''/'' ps)" by simp
    then show ?thesis by auto
  qed
qed

text \<open>
  Claim C6. The upload and link URLs of every HTML file are functions of its relative path
  and the team alone: the edit form and the public URL of page \<open>Team:<team><upload path>\<close>.
  A file directly in the source root gets the upload path \<open>""\<close>, so the URLs of page
  \<open>Team:<team>\<close>; a nested file gets \<open>/\<close> followed by its parent directory path;
  \<open>about/team.html\<close> gets the URLs of page \<open>Team:<team>/about\<close>.
\<close>

theorem HTMLfile_identity:
  "cf_upload_URL (HTMLfile cfg p)
     = ''https://2020.igem.org/wiki/index.php?title=Team:'' @ team cfg
         @ HTMLfile_generate_upload_path p @ ''&action=edit''
   \<and> cf_link_URL (HTMLfile cfg p)
     = ''https://2020.igem.org/Team:'' @ team cfg @ HTMLfile_generate_upload_path p
   \<and> (team cfg = team cfg' \<longrightarrow> HTMLfile cfg p = HTMLfile cfg' p)
   \<and> HTMLfile_generate_upload_path [file] = []
   \<and> cf_upload_URL (HTMLfile cfg [file])
     = ''https://2020.igem.org/wiki/index.php?title=Team:'' @ team cfg @ ''&action=edit''
   \<and> cf_link_URL (HTMLfile cfg [file]) = ''https://2020.igem.org/Team:'' @ team cfg
   \<and> (valid_path p \<and> 1 < length p \<longrightarrow>
        HTMLfile_generate_upload_path p = ''/'' @ join ''/'' (butlast p)
        \<and> cf_upload_URL (HTMLfile cfg p)
          = ''https://2020.igem.org/wiki/index.php?title=Team:'' @ team cfg
              @ ''/'' @ join ''/'' (butlast p) @ ''&action=edit''
        \<and> cf_link_URL (HTMLfile cfg p)
          = ''https://2020.igem.org/Team:'' @ team cfg @ ''/'' @ join ''/'' (butlast p))
   \<and> HTMLfile_generate_upload_URL cfg [''about'', ''team.html'']
     = ''https://2020.igem.org/wiki/index.php?title=Team:'' @ team cfg @ ''/about&action=edit''
   \<and> HTMLfile_generate_link_URL cfg [''about'', ''team.html'']
     = ''https://2020.igem.org/Team:'' @ team cfg @ ''/about''"
proof -
  have nested: "HTMLfile_generate_upload_path p = ''/'' @ join ''/'' (butlast p)"
    if a: "valid_path p \<and> 1 < length p"
  proof -
    from a have ne: "butlast p \<noteq> []" by (cases p rule: rev_cases) auto
    from a have "list_all valid_name (butlast p)"
      by (auto simp: valid_path_def list_all_iff dest: in_set_butlastD)
    with ne have "join ''/'' (butlast p) \<noteq> ''.''" by (rule join_slash_not_dot)
    with ne show ?thesis
      by (simp add: HTMLfile_generate_upload_path_def str_path_def parent_def)
  qed
  have root: "HTMLfile_generate_upload_path [file] = []"
    by (simp add: HTMLfile_generate_upload_path_def str_path_def parent_def)
  have about: "HTMLfile_generate_upload_path [''about'', ''team.html''] = ''/about''"
    by (simp add: HTMLfile_generate_upload_path_def str_path_def parent_def)
  show ?thesis
    using nested root about
    by (simp add: HTMLfile_def HTMLfile_generate_upload_URL_def HTMLfile_generate_link_URL_def)
qed

theorem HTMLfile_identity_witness:
  "HTMLfile_generate_upload_URL example_config [''about'', ''team.html'']
     = ''https://2020.igem.org/wiki/index.php?title=Team:MYTEAM/about&action=edit''
   \<and> HTMLfile_generate_link_URL example_config [''about'', ''team.html'']
     = ''https://2020.igem.org/Team:MYTEAM/about''
   \<and> HTMLfile_generate_upload_path [''index.html''] = []
   \<and> cf_link_URL (HTMLfile example_config [''index.html'']) = ''https://2020.igem.org/Team:MYTEAM''
   \<and> HTMLfile_generate_upload_path [''docs'', ''api'', ''index.html''] = ''/docs/api''
   \<and> cf_upload_URL (HTMLfile example_config [''docs'', ''api'', ''index.html''])
     = ''https://2020.igem.org/wiki/index.php?title=Team:MYTEAM/docs/api&action=edit''
   \<and> cf_link_URL (HTMLfile example_config [''docs'', ''api'', ''index.html''])
     = ''https://2020.igem.org/Team:MYTEAM/docs/api''
   \<and> HTMLfile \<lparr>team = ''MYTEAM'', assets = []\<rparr> [''docs'', ''api'', ''index.html'']
     = HTMLfile example_config [''docs'', ''api'', ''index.html'']"
proof -
  have v: "valid_path [''docs'', ''api'', ''index.html''] \<and> 1 < length [''docs'', ''api'', ''index.html'']"
    by (simp add: valid_path_def valid_name_def)
  have t: "team example_config = ''MYTEAM''"
    by (simp add: example_config_def)
  have t': "team example_config = team \<lparr>team = ''MYTEAM'', assets = []\<rparr>"
    by (simp add: example_config_def)
  let ?p = "[''docs'', ''api'', ''index.html'']"
  note identity = HTMLfile_identity [of example_config ?p
         "\<lparr>team = ''MYTEAM'', assets = []\<rparr>" "''index.html''"]
  from identity have
    "HTMLfile_generate_upload_URL example_config [''about'', ''team.html'']
       = ''https://2020.igem.org/wiki/index.php?title=Team:'' @ team example_config @ ''/about&action=edit''
     \<and> HTMLfile_generate_link_URL example_config [''about'', ''team.html'']
       = ''https://2020.igem.org/Team:'' @ team example_config @ ''/about''"
    by blast
  with t have about:
    "HTMLfile_generate_upload_URL example_config [''about'', ''team.html'']
       = ''https://2020.igem.org/wiki/index.php?title=Team:MYTEAM/about&action=edit''"
    "HTMLfile_generate_link_URL example_config [''about'', ''team.html'']
       = ''https://2020.igem.org/Team:MYTEAM/about''"
    by simp_all
  from identity have
    "HTMLfile_generate_upload_path [''index.html''] = []
     \<and> cf_link_URL (HTMLfile example_config [''index.html''])
       = ''https://2020.igem.org/Team:'' @ team example_config"
    by blast
  with t have root:
    "HTMLfile_generate_upload_path [''index.html''] = []"
    "cf_link_URL (HTMLfile example_config [''index.html'']) = ''https://2020.igem.org/Team:MYTEAM''"
    by simp_all
  from identity v have
    "HTMLfile_generate_upload_path ?p = ''/'' @ join ''/'' (butlast ?p)
     \<and> cf_upload_URL (HTMLfile example_config ?p)
       = ''https://2020.igem.org/wiki/index.php?title=Team:'' @ team example_config
           @ ''/'' @ join ''/'' (butlast ?p) @ ''&action=edit''
     \<and> cf_link_URL (HTMLfile example_config ?p)
       = ''https://2020.igem.org/Team:'' @ team example_config @ ''/'' @ join ''/'' (butlast ?p)"
    by blast
  with t have nested:
    "HTMLfile_generate_upload_path ?p = ''/docs/api''"
    "cf_upload_URL (HTMLfile example_config ?p)
       = ''https://2020.igem.org/wiki/index.php?title=Team:MYTEAM/docs/api&action=edit''"
    "cf_link_URL (HTMLfile example_config ?p) = ''https://2020.igem.org/Team:MYTEAM/docs/api''"
    by simp_all
  from identity t' have "HTMLfile example_config ?p = HTMLfile \<lparr>team = ''MYTEAM'', assets = []\<rparr> ?p"
    by blast
  then have same: "HTMLfile \<lparr>team = ''MYTEAM'', assets = []\<rparr> ?p = HTMLfile example_config ?p"
    by (rule sym)
  from about root nested same show ?thesis by (intro conjI)
qed

lemma replace_char_append:
  "replace_char a b (xs @ ys) = replace_char a b xs @ replace_char a b ys"
  by (simp add: replace_char_def)

lemma replace_char_id: "a \<notin> set s \<Longrightarrow> replace_char a b s = s"
  by (induction s) (auto simp: replace_char_def)

lemma replace_char_join:
  "a \<notin> set sep \<Longrightarrow> replace_char a b (join sep ps) = join sep (map (replace_char a b) ps)"
  by (induction sep ps rule: join.induct) (simp_all add: replace_char_append replace_char_id)

lemma replace_char_removes: "a \<noteq> b \<Longrightarrow> a \<notin> set (replace_char a b s)"
  by (auto simp: replace_char_def)

text \<open>
  Claim C7, as stated, fails: the path separators of a CSS or JS upload path are not
  rewritten. \<open>css/style.css\<close> gets \<open>/css/styleCSS\<close>, which keeps the separator; what
  is rewritten is the dot (\<open>js/app.min.js\<close> gets \<open>/js/app-minJS\<close>).
\<close>

theorem template_upload_path_counterexample:
  "CSSfile_generate_upload_path [''css'', ''style.css''] = ''/css/styleCSS''
   \<and> keeps_separator (CSSfile_generate_upload_path [''css'', ''style.css''])
   \<and> JSfile_generate_upload_path [''js'', ''app.min.js''] = ''/js/app-minJS''
   \<and> keeps_separator (JSfile_generate_upload_path [''js'', ''app.min.js''])"
  by (simp add: CSSfile_generate_upload_path_def JSfile_generate_upload_path_def path_div_def
        parent_def stem_def name_def rfind_def str_path_def replace_char_def keeps_separator_def)

text \<open>
  Claim C7, amended. The upload path of a CSS (JS) file is \<open>/\<close>, then the parts of the
  parent directory and the stem joined by \<open>/\<close> with every \<open>.\<close> in them rewritten to
  \<open>-\<close>, then the tag \<open>CSS\<close> (\<open>JS\<close>); no dot is left in it. The upload URL is the edit
  form of page \<open>Template:<team><upload path>\<close>, the link URL is that page with
  \<open>?action=raw&ctype=text/css\<close> (\<open>text/javascript\<close>).
\<close>

theorem template_identity:
  "(stem p \<noteq> [] \<and> stem p \<noteq> ''.'' \<longrightarrow>
      CSSfile_generate_upload_path p
        = ''/'' @ join ''/'' (map (replace_char (CHR ''.'') (CHR ''-'')) (parent p @ [stem p])) @ ''CSS''
      \<and> JSfile_generate_upload_path p
        = ''/'' @ join ''/'' (map (replace_char (CHR ''.'') (CHR ''-'')) (parent p @ [stem p])) @ ''JS'')
   \<and> CHR ''.'' \<notin> set (CSSfile_generate_upload_path p)
   \<and> CHR ''.'' \<notin> set (JSfile_generate_upload_path p)
   \<and> CSSfile_generate_upload_URL cfg p
        = ''https://2020.igem.org/wiki/index.php?title=Template:'' @ team cfg
            @ CSSfile_generate_upload_path p @ ''&action=edit''
   \<and> CSSfile_generate_link_URL cfg p
        = ''https://2020.igem.org/Template:'' @ team cfg
            @ CSSfile_generate_upload_path p @ ''?action=raw&ctype=text/css''
   \<and> JSfile_generate_upload_URL cfg p
        = ''https://2020.igem.org/wiki/index.php?title=Template:'' @ team cfg
            @ JSfile_generate_upload_path p @ ''&action=edit''
   \<and> JSfile_generate_link_URL cfg p
        = ''https://2020.igem.org/Template:'' @ team cfg
            @ JSfile_generate_upload_path p @ ''?action=raw&ctype=text/javascript''"
proof -
  have dash: "replace_char (CHR ''.'') (CHR ''-'') (join ''/'' ps)
                = join ''/'' (map (replace_char (CHR ''.'') (CHR ''-'')) ps)" for ps
    by (rule replace_char_join) simp
  have nodot: "CHR ''.'' \<notin> set (replace_char (CHR ''.'') (CHR ''-'') s)" for s
    by (rule replace_char_removes) simp
  have a: "stem p \<noteq> [] \<and> stem p \<noteq> ''.'' \<longrightarrow>
      CSSfile_generate_upload_path p
        = ''/'' @ join ''/'' (map (replace_char (CHR ''.'') (CHR ''-'')) (parent p @ [stem p])) @ ''CSS''
      \<and> JSfile_generate_upload_path p
        = ''/'' @ join ''/'' (map (replace_char (CHR ''.'') (CHR ''-'')) (parent p @ [stem p])) @ ''JS''"
    by (simp add: CSSfile_generate_upload_path_def JSfile_generate_upload_path_def path_div_def
          str_path_def dash del: map_append)
  have b: "CHR ''.'' \<notin> set (CSSfile_generate_upload_path p)"
    using nodot by (simp add: CSSfile_generate_upload_path_def)
  have c: "CHR ''.'' \<notin> set (JSfile_generate_upload_path p)"
    using nodot by (simp add: JSfile_generate_upload_path_def)
  show ?thesis
    using a b c
    by (simp only: CSSfile_generate_upload_URL_def CSSfile_generate_link_URL_def
          JSfile_generate_upload_URL_def JSfile_generate_link_URL_def simp_thms)
qed

theorem template_identity_witness:
  "CSSfile_generate_upload_path [''a.b'', ''style.min.css''] = ''/a-b/style-minCSS''
   \<and> JSfile_generate_upload_path [''a.b'', ''app.js''] = ''/a-b/appJS''
   \<and> CSSfile_generate_link_URL example_config [''a.b'', ''style.min.css'']
        = ''https://2020.igem.org/Template:MYTEAM/a-b/style-minCSS?action=raw&ctype=text/css''"
proof -
  have s1: "stem [''a.b'', ''style.min.css''] = ''style.min''"
    by (simp add: stem_def name_def rfind_def)
  have s2: "stem [''a.b'', ''app.js''] = ''app''"
    by (simp add: stem_def name_def rfind_def)
  from template_identity [of "[''a.b'', ''style.min.css'']" example_config]
       template_identity [of "[''a.b'', ''app.js'']" example_config] s1 s2
  show ?thesis
    by (simp add: parent_def replace_char_def example_config_def)
qed

text \<open>
  Claim C8. The upload filename of an asset is \<open>T--<team>--\<close> followed by the parts of
  its path joined with \<open>--\<close>; the leading part is left out exactly when \<open>config['assets']\<close>
  has one element.
\<close>

theorem upload_filename_collapses_single_asset_root:
  "(length (assets cfg) = 1 \<longrightarrow>
      OtherFile_generate_upload_filename cfg p = ''T--'' @ team cfg @ ''--'' @ join ''--'' (tl p)
      \<and> OtherFile_generate_upload_filename cfg [''assets'', ''img'', ''logo.png'']
          = ''T--'' @ team cfg @ ''--img--logo.png'')
   \<and> (length (assets cfg) \<noteq> 1 \<longrightarrow>
      OtherFile_generate_upload_filename cfg p = ''T--'' @ team cfg @ ''--'' @ join ''--'' p
      \<and> OtherFile_generate_upload_filename cfg [''assets'', ''img'', ''logo.png'']
          = ''T--'' @ team cfg @ ''--assets--img--logo.png'')"
  by (simp add: OtherFile_generate_upload_filename_def drop_Suc)

theorem upload_filename_collapses_single_asset_root_witness:
  "OtherFile_generate_upload_filename \<lparr>team = ''MYTEAM'', assets = [''assets'']\<rparr> [''assets'', ''img'', ''logo.png'']
     = ''T--MYTEAM--img--logo.png''
   \<and> OtherFile_generate_upload_filename \<lparr>team = ''MYTEAM'', assets = [''assets'', ''fonts'']\<rparr> [''assets'', ''img'', ''logo.png'']
     = ''T--MYTEAM--assets--img--logo.png''"
  using upload_filename_collapses_single_asset_root [of "\<lparr>team = ''MYTEAM'', assets = [''assets'']\<rparr>" "[''assets'', ''img'', ''logo.png'']"]
    upload_filename_collapses_single_asset_root [of "\<lparr>team = ''MYTEAM'', assets = [''assets'', ''fonts'']\<rparr>" "[''assets'', ''img'', ''logo.png'']"]
  by simp

section \<open>Loading the map\<close>

lemma check_keys_Inr:
  "check_keys ks um = Inr um' \<Longrightarrow>
     um' = (\<lambda>key. if key \<in> set ks \<and> um key = None then Some (Mapping Map.empty) else um key)"
proof (induction ks arbitrary: um)
  case Nil
  then show ?case by simp
next
  case (Cons k ks)
  show ?case
  proof (cases "um k")
    case None
    with Cons.prems have "check_keys ks (um(k \<mapsto> Mapping Map.empty)) = Inr um'" by simp
    from Cons.IH [OF this] None show ?thesis by (auto simp: fun_eq_iff)
  next
    case (Some v)
    show ?thesis
    proof (cases v)
      case (Mapping m)
      with Some Cons.prems have "check_keys ks um = Inr um'" by simp
      from Cons.IH [OF this] Some show ?thesis by (auto simp: fun_eq_iff)
    next
      case NotMapping
      with Some Cons.prems show ?thesis by simp
    qed
  qed
qed

lemma check_keys_total:
  "list_all (\<lambda>key. um key \<noteq> Some NotMapping) ks \<Longrightarrow> \<exists>um'. check_keys ks um = Inr um'"
proof (induction ks arbitrary: um)
  case Nil
  then show ?case by simp
next
  case (Cons k ks)
  then show ?case
    by (cases "um k") (auto split: yaml_value.splits simp: list_all_iff)
qed

lemma check_keys_Inl:
  "check_keys ks um = Inl e \<Longrightarrow> e = SystemExit"
  by (induction ks arbitrary: um) (auto split: option.splits yaml_value.splits)

lemma empty_upload_map_sections:
  "key \<in> set category_keys \<Longrightarrow> empty_upload_map key = Some (Mapping Map.empty)"
  by (auto simp: category_keys_def empty_upload_map_def)

lemma check_keys_no_scalar:
  "check_keys ks um = Inr um' \<Longrightarrow> key \<in> set ks \<Longrightarrow> um key \<noteq> Some NotMapping"
proof (induction ks arbitrary: um)
  case Nil
  then show ?case by simp
next
  case (Cons k ks)
  show ?case
  proof (cases "um k")
    case None
    with Cons.prems(1) have r: "check_keys ks (um(k \<mapsto> Mapping Map.empty)) = Inr um'" by simp
    show ?thesis
    proof (cases "key = k")
      case True
      with None show ?thesis by simp
    next
      case False
      with Cons.prems(2) have "key \<in> set ks" by simp
      from Cons.IH [OF r this] False show ?thesis by simp
    qed
  next
    case (Some v)
    show ?thesis
    proof (cases v)
      case (Mapping m)
      with Some Cons.prems(1) have r: "check_keys ks um = Inr um'" by simp
      show ?thesis
      proof (cases "key = k")
        case True
        with Some Mapping show ?thesis by simp
      next
        case False
        with Cons.prems(2) have "key \<in> set ks" by simp
        from Cons.IH [OF r this] show ?thesis .
      qed
    next
      case NotMapping
      with Some Cons.prems(1) show ?thesis by simp
    qed
  qed
qed

lemma load_upload_map_sections:
  assumes "key \<in> set category_keys"
  shows "\<exists>m. load_upload_map f key = Some (Mapping m)"
proof (cases "load_try f")
  case (Inl e)
  with assms show ?thesis by (simp add: load_upload_map_def empty_upload_map_sections)
next
  case (Inr um')
  then obtain um where ck: "check_keys category_keys um = Inr um'"
    by (auto simp: load_try_def split: map_file.splits)
  from check_keys_Inr [OF ck] assms
  have eq: "um' key = (if um key = None then Some (Mapping Map.empty) else um key)" by simp
  from check_keys_no_scalar [OF ck assms] have "um key \<noteq> Some NotMapping" .
  with eq obtain m where "um' key = Some (Mapping m)"
    by (cases "um key") (auto intro: yaml_value.exhaust)
  with Inr show ?thesis by (simp add: load_upload_map_def)
qed

text \<open>
  Claim C5. Whatever \<open>upload_map.yml\<close> holds, the loaded map binds each of the four
  category keys to a mapping, and loading never ends the run. A missing or malformed file
  gives the four empty mappings; a stored dictionary in which a category key is absent
  (and none is bound to a non-mapping) is kept, with each absent category set to the empty
  mapping.
\<close>

theorem load_upload_map_heals:
  "list_all (\<lambda>key. \<exists>m. load_upload_map f key = Some (Mapping m)) category_keys
   \<and> (f = Unreadable \<or> f = NotADict \<longrightarrow> load_upload_map f = empty_upload_map)
   \<and> (f = Dict um \<and> list_all (\<lambda>key. um key \<noteq> Some NotMapping) category_keys \<longrightarrow>
        load_upload_map f =
          (\<lambda>key. if key \<in> set category_keys \<and> um key = None then Some (Mapping Map.empty) else um key))"
proof (intro conjI impI)
  show "list_all (\<lambda>key. \<exists>m. load_upload_map f key = Some (Mapping m)) category_keys"
    by (simp add: list_all_iff load_upload_map_sections)
next
  assume "f = Unreadable \<or> f = NotADict"
  then show "load_upload_map f = empty_upload_map"
    by (auto simp: load_upload_map_def load_try_def)
next
  assume a: "f = Dict um \<and> list_all (\<lambda>key. um key \<noteq> Some NotMapping) category_keys"
  then obtain um' where ck: "check_keys category_keys um = Inr um'"
    using check_keys_total by blast
  from check_keys_Inr [OF ck] a ck
  show "load_upload_map f =
          (\<lambda>key. if key \<in> set category_keys \<and> um key = None then Some (Mapping Map.empty) else um key)"
    by (simp add: load_upload_map_def load_try_def)
qed

theorem load_upload_map_heals_witness:
  "load_upload_map (Dict css_missing_map) ''css'' = Some (Mapping Map.empty)
   \<and> load_upload_map (Dict css_missing_map) ''assets'' = css_missing_map ''assets''
   \<and> load_upload_map Unreadable = empty_upload_map"
proof -
  have ok: "list_all (\<lambda>key. css_missing_map key \<noteq> Some NotMapping) category_keys"
    by (simp add: css_missing_map_def category_keys_def)
  from load_upload_map_heals [of "Dict css_missing_map" css_missing_map] ok
  have "load_upload_map (Dict css_missing_map) =
          (\<lambda>key. if key \<in> set category_keys \<and> css_missing_map key = None
                  then Some (Mapping Map.empty) else css_missing_map key)"
    by simp
  moreover from load_upload_map_heals [of Unreadable css_missing_map]
  have "load_upload_map Unreadable = empty_upload_map" by simp
  ultimately show ?thesis
    by (simp add: css_missing_map_def category_keys_def)
qed

section \<open>The asset phase\<close>

lemma upload_asset_cases:
  "upload_asset env fo um = (r, um', evs) \<Longrightarrow>
     (r = None \<and> list_all is_asset_upload evs)
     \<or> (r = Some SystemExit \<and> um' = um \<and> needs_upload fo um \<and> iGEM_upload_file env fo = None
          \<and> evs = [Upload_file (of_path fo) False, Write_upload_map um])
     \<or> (r = Some OtherException \<and> um' = um \<and> evs = [])"
  by (auto simp: upload_asset_def needs_upload_def Let_def split: option.splits if_splits)

text \<open>
  A stored asset entry without \<open>'md5'\<close> ends the run at line 179, by an exception that
  nothing catches: nothing is uploaded and the map is not written.
\<close>

lemma upload_asset_key_error:
  "sec um ''assets'' (str_path (of_path fo)) = Some asset \<Longrightarrow> md5 asset = None \<Longrightarrow>
     upload_asset env fo um = (Some OtherException, um, [])"
  by (simp add: upload_asset_def)

lemma upload_asset_fails:
  "needs_upload fo um \<Longrightarrow> iGEM_upload_file env fo = None \<Longrightarrow>
     upload_asset env fo um = (Some SystemExit, um, [Upload_file (of_path fo) False, Write_upload_map um])"
  by (auto simp: upload_asset_def needs_upload_def Let_def split: option.splits)

lemma upload_assets_events:
  "upload_assets env fos um = (r, um', evs) \<Longrightarrow>
     (r = None \<and> list_all is_asset_upload evs)
     \<or> (r = Some SystemExit \<and> (\<exists>A. evs = A @ [Write_upload_map um'] \<and> list_all is_asset_upload A))
     \<or> (r = Some OtherException \<and> list_all is_asset_upload evs)"
proof (induction fos arbitrary: um r um' evs)
  case Nil
  then show ?case by simp
next
  case (Cons fo fos)
  obtain r1 um1 evs1 where s: "upload_asset env fo um = (r1, um1, evs1)"
    by (cases "upload_asset env fo um") auto
  show ?case
  proof (cases r1)
    case None
    obtain r2 um2 evs2 where l: "upload_assets env fos um1 = (r2, um2, evs2)"
      by (cases "upload_assets env fos um1") auto
    from Cons.prems s None l have eq: "r = r2" "um' = um2" "evs = evs1 @ evs2" by auto
    from upload_asset_cases [OF s] None have a1: "list_all is_asset_upload evs1" by auto
    from Cons.IH [OF l] consider
        (ok) "r2 = None" "list_all is_asset_upload evs2"
      | (exit) A where "r2 = Some SystemExit" "evs2 = A @ [Write_upload_map um2]" "list_all is_asset_upload A"
      | (crash) "r2 = Some OtherException" "list_all is_asset_upload evs2"
      by blast
    then show ?thesis
    proof cases
      case ok
      with eq a1 show ?thesis by simp
    next
      case exit
      with eq a1 have "r = Some SystemExit \<and> evs = (evs1 @ A) @ [Write_upload_map um'] \<and> list_all is_asset_upload (evs1 @ A)"
        by simp
      then show ?thesis by blast
    next
      case crash
      with eq a1 show ?thesis by simp
    qed
  next
    case (Some e)
    with Cons.prems s have eq: "r = Some e" "um' = um1" "evs = evs1" by auto
    from upload_asset_cases [OF s] Some consider
        (exit) "e = SystemExit" "um1 = um" "evs1 = [Upload_file (of_path fo) False, Write_upload_map um]"
      | (crash) "e = OtherException" "evs1 = []"
      by auto
    then show ?thesis
    proof cases
      case exit
      with eq have "r = Some SystemExit \<and> evs = [Upload_file (of_path fo) False] @ [Write_upload_map um'] \<and> list_all is_asset_upload [Upload_file (of_path fo) False]"
        by simp
      then show ?thesis by blast
    next
      case crash
      with eq show ?thesis by simp
    qed
  qed
qed

lemma is_asset_upload_not_document: "is_asset_upload ev \<Longrightarrow> \<not> is_document_event ev"
  by (cases ev) simp_all

lemma upload_assets_no_document:
  assumes "upload_assets env fos um = (r, um', evs)"
  shows "list_all (\<lambda>ev. \<not> is_document_event ev) evs"
proof -
  from upload_assets_events [OF assms] consider
      "list_all is_asset_upload evs"
    | A where "evs = A @ [Write_upload_map um']" "list_all is_asset_upload A"
    by blast
  then show ?thesis
    by cases (auto simp: list_all_iff is_asset_upload_not_document)
qed

lemma process_document_events:
  "process_document env cfg fo um = (r, um', evs) \<Longrightarrow> list_all is_document_event evs"
  by (auto simp: process_document_def Let_def split: option.splits if_splits)

lemma process_documents_events:
  "process_documents env cfg fos um = (r, um', evs) \<Longrightarrow> list_all is_document_event evs"
proof (induction fos arbitrary: um r um' evs)
  case Nil
  then show ?case by simp
next
  case (Cons fo fos)
  obtain r1 um1 evs1 where s: "process_document env cfg fo um = (r1, um1, evs1)"
    by (cases "process_document env cfg fo um") auto
  obtain r2 um2 evs2 where l: "process_documents env cfg fos um1 = (r2, um2, evs2)"
    by (cases "process_documents env cfg fos um1") auto
  from Cons.prems s l have "evs = evs1 \<or> evs = evs1 @ evs2"
    by (cases r1) auto
  with process_document_events [OF s] Cons.IH [OF l] show ?case by auto
qed

lemma upload_assets_append:
  "upload_assets env (xs @ ys) um =
     (case upload_assets env xs um of
        (Some e, um', evs) \<Rightarrow> (Some e, um', evs)
      | (None, um', evs) \<Rightarrow>
          (case upload_assets env ys um' of (r, um'', evs') \<Rightarrow> (r, um'', evs @ evs')))"
  by (induction xs arbitrary: um) (auto split: prod.splits option.splits)

lemma sec_set_entry:
  "sec (set_entry um key k e) key' = (if key' = key then (sec um key)(k \<mapsto> e) else sec um key')"
  by (simp add: sec_def set_entry_def)

lemma set_entry_other: "key' \<noteq> key \<Longrightarrow> set_entry um key k e key' = um key'"
  by (simp add: set_entry_def)

lemma upload_asset_frame:
  assumes "upload_asset env fo um = (None, um', evs)"
  shows "recorded um' fo"
    and "k \<noteq> str_path (of_path fo) \<Longrightarrow> sec um' ''assets'' k = sec um ''assets'' k"
    and "sec um ''assets'' k \<noteq> None \<Longrightarrow> sec um' ''assets'' k \<noteq> None"
    and "key \<noteq> ''assets'' \<Longrightarrow> um' key = um key"
  using assms
  by (auto simp: upload_asset_def recorded_def Let_def sec_set_entry set_entry_other
        split: option.splits if_splits)

lemma upload_assets_frame:
  assumes "upload_assets env fos um = (None, um', evs)"
  shows "k \<notin> set (map (\<lambda>fo. str_path (of_path fo)) fos) \<Longrightarrow> sec um' ''assets'' k = sec um ''assets'' k"
    and "sec um ''assets'' k \<noteq> None \<Longrightarrow> sec um' ''assets'' k \<noteq> None"
    and "key \<noteq> ''assets'' \<Longrightarrow> um' key = um key"
  using assms
proof (induction fos arbitrary: um um' evs)
  case Nil
  { case 1 then show ?case by simp }
  { case 2 then show ?case by simp }
  { case 3 then show ?case by simp }
next
  case (Cons fo fos)
  { case 1
    then obtain um1 evs1 evs2 where s: "upload_asset env fo um = (None, um1, evs1)"
        and l: "upload_assets env fos um1 = (None, um', evs2)"
      by (auto split: prod.splits option.splits)
    from 1 have "k \<noteq> str_path (of_path fo)" "k \<notin> set (map (\<lambda>fo. str_path (of_path fo)) fos)" by auto
    with Cons.IH(1) [OF _ l] upload_asset_frame(2) [OF s] show ?case by simp }
  { case 2
    then obtain um1 evs1 evs2 where s: "upload_asset env fo um = (None, um1, evs1)"
        and l: "upload_assets env fos um1 = (None, um', evs2)"
      by (auto split: prod.splits option.splits)
    from upload_asset_frame(3) [OF s] 2 have "sec um1 ''assets'' k \<noteq> None" by simp
    with Cons.IH(2) [OF _ l] show ?case by simp }
  { case 3
    then obtain um1 evs1 evs2 where s: "upload_asset env fo um = (None, um1, evs1)"
        and l: "upload_assets env fos um1 = (None, um', evs2)"
      by (auto split: prod.splits option.splits)
    with Cons.IH(3) [OF _ l] upload_asset_frame(4) [OF s] 3 show ?case by simp }
qed

lemma upload_assets_recorded:
  "upload_assets env fos um = (None, um', evs) \<Longrightarrow> distinct (map (\<lambda>fo. str_path (of_path fo)) fos) \<Longrightarrow>
     list_all (recorded um') fos"
proof (induction fos arbitrary: um um' evs)
  case Nil
  then show ?case by simp
next
  case (Cons fo fos)
  then obtain um1 evs1 evs2 where s: "upload_asset env fo um = (None, um1, evs1)"
      and l: "upload_assets env fos um1 = (None, um', evs2)"
    by (auto split: prod.splits option.splits)
  from Cons.prems have d: "str_path (of_path fo) \<notin> set (map (\<lambda>fo. str_path (of_path fo)) fos)"
      "distinct (map (\<lambda>fo. str_path (of_path fo)) fos)" by auto
  from upload_assets_frame(1) [OF l d(1)] upload_asset_frame(1) [OF s]
  have "recorded um' fo" by (simp add: recorded_def)
  with Cons.IH [OF l d(2)] show ?case by simp
qed

section \<open>The order of the two phases\<close>

text \<open>
  Claim C2. A run that ends before the asset phase has no event. Otherwise the asset
  phase handles the asset descriptors of the classified tree, from the map left by
  classification. When it fails, the run ends there and no document is touched. When it
  handles them all, its events are asset uploads only, and the run goes on with exactly
  one call of \<open>write_upload_map\<close>, on the map the asset phase left (which records every
  asset with its current digest), then only reads, build writes and page uploads of
  documents, then the final call of \<open>write_upload_map\<close> when \<open>main\<close> returns. So no
  document is read, written or uploaded before that checkpoint write, and no asset is
  uploaded after it. (The write is the call of \<open>write_upload_map\<close>, which swallows a
  failure of the file system.)
\<close>

theorem checkpoint_before_documents:
  "(config_yml env = None \<or> \<not> iGEM_login env \<longrightarrow>
      snd (snd (main env)) = [] \<and> fst (main env) = Some SystemExit)
   \<and> (config_yml env = Some cfg \<and> iGEM_login env \<longrightarrow>
        (case classify_all env cfg (walk env) (no_files, load_upload_map (upload_map_yml env)) of
           Inl e \<Rightarrow> snd (snd (main env)) = [] \<and> fst (main env) = Some e
         | Inr s \<Rightarrow>
             (case upload_assets env (map snd (OtherFiles (fst s))) (snd s) of
                (Some e, um2, A) \<Rightarrow>
                  main env = (Some e, um2, A) \<and> list_all (\<lambda>ev. \<not> is_document_event ev) A
              | (None, um2, A) \<Rightarrow>
                  list_all is_asset_upload A
                  \<and> (distinct (map (\<lambda>fo. str_path (of_path fo)) (map snd (OtherFiles (fst s)))) \<longrightarrow>
                       list_all (recorded um2) (map snd (OtherFiles (fst s))))
                  \<and> (\<exists>D F. snd (snd (main env)) = A @ [Write_upload_map um2] @ D @ F
                        \<and> list_all is_document_event D
                        \<and> (F = [] \<and> fst (main env) \<noteq> None
                             \<or> F = [Write_upload_map (fst (snd (main env)))] \<and> fst (main env) = None)))))"
proof (rule conjI; rule impI)
  assume "config_yml env = None \<or> \<not> iGEM_login env"
  then show "snd (snd (main env)) = [] \<and> fst (main env) = Some SystemExit"
    by (auto simp: main_def split: option.splits)
next
  assume h: "config_yml env = Some cfg \<and> iGEM_login env"
  let ?um0 = "load_upload_map (upload_map_yml env)"
  show "case classify_all env cfg (walk env) (no_files, ?um0) of
           Inl e \<Rightarrow> snd (snd (main env)) = [] \<and> fst (main env) = Some e
         | Inr s \<Rightarrow>
             (case upload_assets env (map snd (OtherFiles (fst s))) (snd s) of
                (Some e, um2, A) \<Rightarrow>
                  main env = (Some e, um2, A) \<and> list_all (\<lambda>ev. \<not> is_document_event ev) A
              | (None, um2, A) \<Rightarrow>
                  list_all is_asset_upload A
                  \<and> (distinct (map (\<lambda>fo. str_path (of_path fo)) (map snd (OtherFiles (fst s)))) \<longrightarrow>
                       list_all (recorded um2) (map snd (OtherFiles (fst s))))
                  \<and> (\<exists>D F. snd (snd (main env)) = A @ [Write_upload_map um2] @ D @ F
                        \<and> list_all is_document_event D
                        \<and> (F = [] \<and> fst (main env) \<noteq> None
                             \<or> F = [Write_upload_map (fst (snd (main env)))] \<and> fst (main env) = None)))"
  proof (cases "classify_all env cfg (walk env) (no_files, ?um0)")
    case (Inl e)
    with h show ?thesis by (simp add: main_def)
  next
    case (Inr s)
    obtain r2 um2 A where a: "upload_assets env (map snd (OtherFiles (fst s))) (snd s) = (r2, um2, A)"
      by (cases "upload_assets env (map snd (OtherFiles (fst s))) (snd s)") auto
    show ?thesis
    proof (cases r2)
      case (Some e)
      from h Inr a Some have m: "main env = (Some e, um2, A)" by (simp add: main_def)
      from upload_assets_no_document [OF a] have "list_all (\<lambda>ev. \<not> is_document_event ev) A" .
      with m Inr a Some show ?thesis by simp
    next
      case None
      with upload_assets_events [OF a] have A: "list_all is_asset_upload A" by auto
      have R: "distinct (map (\<lambda>fo. str_path (of_path fo)) (map snd (OtherFiles (fst s)))) \<longrightarrow>
                 list_all (recorded um2) (map snd (OtherFiles (fst s)))"
        using upload_assets_recorded [OF a [unfolded None]] by blast
      let ?docs = "map snd (HTMLfiles (fst s)) @ map snd (CSSfiles (fst s)) @ map snd (JSfiles (fst s))"
      obtain r3 um3 D where d: "process_documents env cfg ?docs um2 = (r3, um3, D)"
        by (cases "process_documents env cfg ?docs um2") auto
      from process_documents_events [OF d] have Dd: "list_all is_document_event D" .
      have E: "\<exists>D F. snd (snd (main env)) = A @ [Write_upload_map um2] @ D @ F
                        \<and> list_all is_document_event D
                        \<and> (F = [] \<and> fst (main env) \<noteq> None
                             \<or> F = [Write_upload_map (fst (snd (main env)))] \<and> fst (main env) = None)"
      proof (cases r3)
        case None
        from h Inr a \<open>r2 = None\<close> d None
        have m: "main env = (None, um3, A @ [Write_upload_map um2] @ D @ [Write_upload_map um3])"
          by (simp add: main_def)
        have "snd (snd (main env)) = A @ [Write_upload_map um2] @ D @ [Write_upload_map um3]
                \<and> list_all is_document_event D
                \<and> ([Write_upload_map um3] = [] \<and> fst (main env) \<noteq> None
                     \<or> [Write_upload_map um3] = [Write_upload_map (fst (snd (main env)))] \<and> fst (main env) = None)"
          using m Dd by simp
        then show ?thesis by blast
      next
        case (Some e)
        from h Inr a \<open>r2 = None\<close> d Some
        have m: "main env = (Some e, um3, A @ [Write_upload_map um2] @ D)"
          by (simp add: main_def)
        have "snd (snd (main env)) = A @ [Write_upload_map um2] @ D @ []
                \<and> list_all is_document_event D
                \<and> ([] = [] \<and> fst (main env) \<noteq> None
                     \<or> [] = [Write_upload_map (fst (snd (main env)))] \<and> fst (main env) = None)"
          using m Dd by simp
        then show ?thesis by blast
      qed
      from A R E Inr a None show ?thesis by simp
    qed
  qed
qed

section \<open>Evaluating concrete runs\<close>

text \<open>The chunked read feeds the whole file to the hash object.\<close>

lemma chunks_fold: "0 < n \<Longrightarrow> fold (\<lambda>chunk fed. fed @ chunk) (chunks n bs) acc = acc @ bs"
proof (induction n bs arbitrary: acc rule: chunks.induct)
  case (1 n bs)
  show ?case
  proof (cases "bs = []")
    case True
    then show ?thesis by (simp add: chunks.simps)
  next
    case False
    with 1 show ?thesis by (subst chunks.simps) simp
  qed
qed

lemma OtherFile_generate_md5_hash_eq:
  "OtherFile_generate_md5_hash env p = map_option (hexdigest env SHA1) (read_bytes env p)"
  by (simp add: OtherFile_generate_md5_hash_def chunks_fold split: option.splits)

lemmas run_defs = main_def example_env_def example_config_def load_upload_map_def load_try_def
  empty_upload_map_def category_keys_def no_files_def classify_def extension_def suffix_def name_def
  rfind_def lower_def lower_char_def HTMLfile_def CSSfile_def JSfile_def OtherFile_def
  OtherFile_generate_md5_hash_eq add_code_entry_def sec_def set_entry_def str_path_def
  asset_extensions_def upload_asset_def process_document_def parse_def build_hash_def
  hashlib_of_empty_def OtherFile_generate_upload_filename_def HTMLfile_generate_link_URL_def
  HTMLfile_generate_upload_URL_def HTMLfile_generate_upload_path_def parent_def Let_def

lemmas mixed_defs = mixed_env_def mixed_map_def CSSfile_generate_upload_URL_def
  CSSfile_generate_link_URL_def CSSfile_generate_upload_path_def path_div_def stem_def
  replace_char_def

lemma recorded_stored_md5:
  "recorded um fo \<Longrightarrow> stored_md5 (Dict um) ''assets'' (str_path (of_path fo)) = Some (of_md5_hash fo)"
  by (auto simp: recorded_def stored_md5_def)

theorem checkpoint_before_documents_witness:
  "\<exists>um2 D. snd (snd (main mixed_env))
        = [Upload_file [''assets'', ''a.png''] True, Upload_file [''assets'', ''n.png''] True]
            @ [Write_upload_map um2] @ D @ [Write_upload_map (fst (snd (main mixed_env)))]
      \<and> list_all is_document_event D
      \<and> stored_md5 (Dict um2) ''assets'' ''assets/a.png'' = Some ''da39a3ee5e6b4b0d3255bfef95601890afd80709''
      \<and> stored_md5 (Dict um2) ''assets'' ''assets/b.png'' = Some ''da39a3ee5e6b4b0d3255bfef95601890afd80709''
      \<and> stored_md5 (Dict um2) ''assets'' ''assets/n.png'' = Some ''da39a3ee5e6b4b0d3255bfef95601890afd80709''"
proof -
  let ?a = "\<lparr>of_path = [''assets'', ''a.png''], of_upload_filename = ''T--MYTEAM--a.png'',
             of_md5_hash = ''da39a3ee5e6b4b0d3255bfef95601890afd80709''\<rparr>"
  let ?b = "\<lparr>of_path = [''assets'', ''b.png''], of_upload_filename = ''T--MYTEAM--b.png'',
             of_md5_hash = ''da39a3ee5e6b4b0d3255bfef95601890afd80709''\<rparr>"
  let ?n = "\<lparr>of_path = [''assets'', ''n.png''], of_upload_filename = ''T--MYTEAM--n.png'',
             of_md5_hash = ''da39a3ee5e6b4b0d3255bfef95601890afd80709''\<rparr>"
  let ?A = "[Upload_file [''assets'', ''a.png''] True, Upload_file [''assets'', ''n.png''] True]"
  have h: "config_yml mixed_env = Some example_config \<and> iGEM_login mixed_env"
    by (simp add: mixed_env_def example_env_def)
  have "\<exists>fs um1 um2. classify_all mixed_env example_config (walk mixed_env)
            (no_files, load_upload_map (upload_map_yml mixed_env)) = Inr (fs, um1)
          \<and> map snd (OtherFiles fs) = [?a, ?b, ?n]
          \<and> upload_assets mixed_env [?a, ?b, ?n] um1 = (None, um2, ?A)"
    by (simp add: mixed_defs run_defs)
  then obtain fs um1 um2 where scan: "classify_all mixed_env example_config (walk mixed_env)
            (no_files, load_upload_map (upload_map_yml mixed_env)) = Inr (fs, um1)"
      and fos: "map snd (OtherFiles fs) = [?a, ?b, ?n]"
      and assets: "upload_assets mixed_env [?a, ?b, ?n] um1 = (None, um2, ?A)"
    by (elim exE conjE) (rule that, assumption+)
  have d: "distinct (map (\<lambda>fo. str_path (of_path fo)) [?a, ?b, ?n])"
    by (simp add: str_path_def)
  from checkpoint_before_documents [of mixed_env example_config] h scan fos assets d
  have rec: "list_all (recorded um2) [?a, ?b, ?n]"
    and ex: "\<exists>D F. snd (snd (main mixed_env)) = ?A @ [Write_upload_map um2] @ D @ F
               \<and> list_all is_document_event D
               \<and> (F = [] \<and> fst (main mixed_env) \<noteq> None
                    \<or> F = [Write_upload_map (fst (snd (main mixed_env)))] \<and> fst (main mixed_env) = None)"
    by simp_all
  have r: "fst (main mixed_env) = None"
    by (simp add: mixed_defs run_defs)
  from ex r obtain D where D: "snd (snd (main mixed_env))
        = ?A @ [Write_upload_map um2] @ D @ [Write_upload_map (fst (snd (main mixed_env)))]"
      "list_all is_document_event D"
    by auto
  from rec have "recorded um2 ?a" "recorded um2 ?b" "recorded um2 ?n" by simp_all
  from this [THEN recorded_stored_md5]
  have "stored_md5 (Dict um2) ''assets'' ''assets/a.png'' = Some ''da39a3ee5e6b4b0d3255bfef95601890afd80709''"
       "stored_md5 (Dict um2) ''assets'' ''assets/b.png'' = Some ''da39a3ee5e6b4b0d3255bfef95601890afd80709''"
       "stored_md5 (Dict um2) ''assets'' ''assets/n.png'' = Some ''da39a3ee5e6b4b0d3255bfef95601890afd80709''"
    by (simp_all add: str_path_def)
  with D show ?thesis by blast
qed

section \<open>A failed asset upload\<close>

text \<open>
  Claim C3, as stated, fails in one point: the run does not terminate with an error
  status. In the tree of \<open>failing_asset_env\<close> the upload of \<open>c.png\<close> fails and the
  run ends by SystemExit, which was raised without a code: the exit status is 0.
\<close>

theorem asset_upload_failure_exits_with_status_zero:
  "Upload_file [''assets'', ''c.png''] False \<in> set (snd (snd (main failing_asset_env)))
   \<and> fst (main failing_asset_env) = Some SystemExit
   \<and> exit_status (fst (main failing_asset_env)) = 0"
proof -
  have "\<exists>um. main failing_asset_env
          = (Some SystemExit, um,
             [Upload_file [''assets'', ''a.png''] True, Upload_file [''assets'', ''n.png''] True,
              Upload_file [''assets'', ''c.png''] False, Write_upload_map um])"
    by (simp add: failing_asset_env_def mixed_defs run_defs)
  then obtain um where "main failing_asset_env
          = (Some SystemExit, um,
             [Upload_file [''assets'', ''a.png''] True, Upload_file [''assets'', ''n.png''] True,
              Upload_file [''assets'', ''c.png''] False, Write_upload_map um])" ..
  then show ?thesis by (simp add: exit_status_def)
qed

text \<open>
  Claim C3, amended. When the upload of an asset fails (the assets before it having been
  handled without failure), the run calls \<open>write_upload_map\<close> with the map as those
  assets left it and raises SystemExit without a code, so the process ends with status 0:
  the failed upload and the write are its last two events, so no further asset and no
  document is handled and the upload is not tried again. The map written keeps every
  asset entry it had after classification and records each asset handled before with its
  current digest.
\<close>

theorem asset_upload_failure_is_fatal:
  assumes cfg: "config_yml env = Some cfg" and login: "iGEM_login env"
    and scan: "classify_all env cfg (walk env) (no_files, load_upload_map (upload_map_yml env)) = Inr (fs, um1)"
    and split: "map snd (OtherFiles fs) = done @ file_object # rest"
    and before: "upload_assets env done um1 = (None, um2, evs)"
    and fails: "needs_upload file_object um2" "iGEM_upload_file env file_object = None"
  shows "main env = (Some SystemExit, um2,
                     evs @ [Upload_file (of_path file_object) False, Write_upload_map um2])
    \<and> exit_status (fst (main env)) = 0
    \<and> list_all is_asset_upload evs
    \<and> (\<forall>k. sec um1 ''assets'' k \<noteq> None \<longrightarrow> sec um2 ''assets'' k \<noteq> None)
    \<and> (distinct (map (\<lambda>fo. str_path (of_path fo)) done) \<longrightarrow> list_all (recorded um2) done)"
proof -
  from upload_asset_fails [OF fails]
  have "upload_assets env (file_object # rest) um2
          = (Some SystemExit, um2, [Upload_file (of_path file_object) False, Write_upload_map um2])"
    by simp
  with before have "upload_assets env (done @ file_object # rest) um1
          = (Some SystemExit, um2, evs @ [Upload_file (of_path file_object) False, Write_upload_map um2])"
    by (simp add: upload_assets_append)
  with cfg login scan split
  have m: "main env = (Some SystemExit, um2,
                     evs @ [Upload_file (of_path file_object) False, Write_upload_map um2])"
    by (simp add: main_def)
  then have x: "exit_status (fst (main env)) = 0" by (simp add: exit_status_def)
  from upload_assets_events [OF before] have a: "list_all is_asset_upload evs" by simp
  have k: "\<forall>k. sec um1 ''assets'' k \<noteq> None \<longrightarrow> sec um2 ''assets'' k \<noteq> None"
    using upload_assets_frame(2) [OF before] by blast
  have r: "distinct (map (\<lambda>fo. str_path (of_path fo)) done) \<longrightarrow> list_all (recorded um2) done"
    using upload_assets_recorded [OF before] by blast
  from m x a k r show ?thesis by blast
qed

theorem asset_upload_failure_is_fatal_witness:
  "\<exists>um2. main failing_asset_env
       = (Some SystemExit, um2,
          [Upload_file [''assets'', ''a.png''] True, Upload_file [''assets'', ''n.png''] True]
            @ [Upload_file [''assets'', ''c.png''] False, Write_upload_map um2])
     \<and> exit_status (fst (main failing_asset_env)) = 0
     \<and> stored_md5 (Dict um2) ''assets'' ''assets/a.png'' = Some ''da39a3ee5e6b4b0d3255bfef95601890afd80709''
     \<and> stored_md5 (Dict um2) ''assets'' ''assets/b.png'' = Some ''da39a3ee5e6b4b0d3255bfef95601890afd80709''
     \<and> stored_md5 (Dict um2) ''assets'' ''assets/n.png'' = Some ''da39a3ee5e6b4b0d3255bfef95601890afd80709''"
proof -
  let ?a = "\<lparr>of_path = [''assets'', ''a.png''], of_upload_filename = ''T--MYTEAM--a.png'',
             of_md5_hash = ''da39a3ee5e6b4b0d3255bfef95601890afd80709''\<rparr>"
  let ?b = "\<lparr>of_path = [''assets'', ''b.png''], of_upload_filename = ''T--MYTEAM--b.png'',
             of_md5_hash = ''da39a3ee5e6b4b0d3255bfef95601890afd80709''\<rparr>"
  let ?n = "\<lparr>of_path = [''assets'', ''n.png''], of_upload_filename = ''T--MYTEAM--n.png'',
             of_md5_hash = ''da39a3ee5e6b4b0d3255bfef95601890afd80709''\<rparr>"
  let ?c = "\<lparr>of_path = [''assets'', ''c.png''], of_upload_filename = ''T--MYTEAM--c.png'',
             of_md5_hash = ''da39a3ee5e6b4b0d3255bfef95601890afd80709''\<rparr>"
  let ?d = "\<lparr>of_path = [''assets'', ''d.png''], of_upload_filename = ''T--MYTEAM--d.png'',
             of_md5_hash = ''da39a3ee5e6b4b0d3255bfef95601890afd80709''\<rparr>"
  let ?A = "[Upload_file [''assets'', ''a.png''] True, Upload_file [''assets'', ''n.png''] True]"
  have cfg: "config_yml failing_asset_env = Some example_config"
    by (simp add: failing_asset_env_def mixed_env_def example_env_def)
  have login: "iGEM_login failing_asset_env"
    by (simp add: failing_asset_env_def mixed_env_def example_env_def)
  have "\<exists>fs um1 um2. classify_all failing_asset_env example_config (walk failing_asset_env)
            (no_files, load_upload_map (upload_map_yml failing_asset_env)) = Inr (fs, um1)
          \<and> map snd (OtherFiles fs) = [?a, ?b, ?n] @ ?c # [?d]
          \<and> upload_assets failing_asset_env [?a, ?b, ?n] um1 = (None, um2, ?A)
          \<and> needs_upload ?c um2"
    by (simp add: failing_asset_env_def needs_upload_def mixed_defs run_defs)
  then obtain fs um1 um2 where scan: "classify_all failing_asset_env example_config (walk failing_asset_env)
            (no_files, load_upload_map (upload_map_yml failing_asset_env)) = Inr (fs, um1)"
      and split: "map snd (OtherFiles fs) = [?a, ?b, ?n] @ ?c # [?d]"
      and before: "upload_assets failing_asset_env [?a, ?b, ?n] um1 = (None, um2, ?A)"
      and needs: "needs_upload ?c um2"
    by (elim exE conjE) (rule that, assumption+)
  have fails: "iGEM_upload_file failing_asset_env ?c = None"
    by (simp add: failing_asset_env_def)
  have d: "distinct (map (\<lambda>fo. str_path (of_path fo)) [?a, ?b, ?n])"
    by (simp add: str_path_def)
  note fatal = asset_upload_failure_is_fatal [OF cfg login scan split before needs fails]
  from fatal have m: "main failing_asset_env
             = (Some SystemExit, um2, ?A @ [Upload_file [''assets'', ''c.png''] False, Write_upload_map um2])"
    by simp
  from fatal have x: "exit_status (fst (main failing_asset_env)) = 0"
    by (elim conjE)
  from fatal d have rec: "list_all (recorded um2) [?a, ?b, ?n]"
    by (elim conjE) (erule mp)
  from rec have "recorded um2 ?a" "recorded um2 ?b" "recorded um2 ?n" by simp_all
  from this [THEN recorded_stored_md5]
  have "stored_md5 (Dict um2) ''assets'' ''assets/a.png'' = Some ''da39a3ee5e6b4b0d3255bfef95601890afd80709''"
       "stored_md5 (Dict um2) ''assets'' ''assets/b.png'' = Some ''da39a3ee5e6b4b0d3255bfef95601890afd80709''"
       "stored_md5 (Dict um2) ''assets'' ''assets/n.png'' = Some ''da39a3ee5e6b4b0d3255bfef95601890afd80709''"
    by (simp_all add: str_path_def)
  with m x show ?thesis by blast
qed

section \<open>Digests of documents across runs\<close>

text \<open>
  Classifying a document stores an entry with the empty digest under its path string,
  whatever the map held: the membership test is made on the path object.
\<close>

lemma add_code_entry_resets:
  "sec (add_code_entry key file_object um) key (str_path (cf_path file_object))
     = Some \<lparr>md5 = Some [], link_URL = Some (cf_link_URL file_object), upload_filename = None\<rparr>"
  by (simp add: add_code_entry_def sec_set_entry)

text \<open>
  The document phase stores the new digest in the map before the build file is written
  and the page uploaded, so the map has it whether or not they succeed.
\<close>

lemma process_document_stores_digest_first:
  assumes "read_text env (cf_path fo) = Some contents"
    and "parse env cfg fo contents um = Some processed"
    and "sec um (cf_extension fo) (str_path (cf_path fo)) = Some e"
    and "md5 e = Some stored" and "stored \<noteq> build_hash env processed"
  shows "fst (snd (process_document env cfg fo um))
           = set_entry um (cf_extension fo) (str_path (cf_path fo))
               (e\<lparr>md5 := Some (build_hash env processed)\<rparr>)"
  using assms by (simp add: process_document_def Let_def)


text \<open>
  The defect in general: in every run that returns, every HTML, CSS or JS file of the tree
  whose source can be read is written to the build directory, and uploaded when that
  write succeeds, whatever \<open>upload_map.yml\<close> held. (A hex digest is never the empty
  string; the files of the tree have distinct path strings.)
\<close>

lemma sec_add_code_entry:
  "sec (add_code_entry key fo um) key' k =
     (if key' = key \<and> k = str_path (cf_path fo)
      then Some \<lparr>md5 = Some [], link_URL = Some (cf_link_URL fo), upload_filename = None\<rparr>
      else sec um key' k)"
  by (simp add: add_code_entry_def sec_set_entry)

lemma reset_add_code_entry: "reset um fo \<Longrightarrow> reset (add_code_entry key fo' um) fo"
  by (auto simp: reset_def sec_add_code_entry)

lemma reset_add_code_entry_self: "cf_extension fo = key \<Longrightarrow> reset (add_code_entry key fo um) fo"
  by (simp add: reset_def sec_add_code_entry)

lemma set_dict_set: "set (dict_set k v d) \<subseteq> insert (k, v) (set d)"
  by (induction k v d rule: dict_set.induct) auto

lemma dict_set_mem: "(k, v) \<in> set (dict_set k v d)"
  by (induction k v d rule: dict_set.induct) auto

lemma dict_set_keeps: "(k', v') \<in> set d \<Longrightarrow> k' \<noteq> k \<Longrightarrow> (k', v') \<in> set (dict_set k v d)"
  by (induction k v d rule: dict_set.induct) auto

lemma fst_dict_set: "fst ` set (dict_set k v d) = insert k (fst ` set d)"
  by (induction k v d rule: dict_set.induct) auto

lemma distinct_dict_set: "distinct (map fst d) \<Longrightarrow> distinct (map fst (dict_set k v d))"
proof (induction d)
  case Nil
  then show ?case by simp
next
  case (Cons a d)
  obtain k' v' where a: "a = (k', v')" by (cases a)
  show ?case
  proof (cases "k' = k")
    case True
    with Cons.prems a show ?thesis by simp
  next
    case False
    from Cons.prems a have "k' \<notin> fst ` set d" "distinct (map fst d)" by auto
    with False Cons.IH a show ?thesis by (simp add: fst_dict_set)
  qed
qed

text \<open>What classification keeps true of the three dictionaries of documents.\<close>

lemma dict_ok_dict_set:
  "dict_ok cfg ext d \<Longrightarrow> extension k = ext \<Longrightarrow> dict_ok cfg ext (dict_set k (code_file_of cfg k) d)"
  using set_dict_set [of k "code_file_of cfg k" d]
  by (auto simp: dict_ok_def distinct_dict_set list_all_iff)

lemma cf_path_code_file_of [simp]: "cf_path (code_file_of cfg p) = p"
  by (simp add: code_file_of_def HTMLfile_def CSSfile_def JSfile_def)

lemma cf_extension_code_file_of [simp]: "cf_extension (code_file_of cfg p) = extension p"
  by (simp add: code_file_of_def HTMLfile_def CSSfile_def JSfile_def)

lemma classify_html:
  "extension infile = ''html'' \<Longrightarrow>
     classify env cfg infile s
       = Inr ((fst s)\<lparr>HTMLfiles := dict_set infile (code_file_of cfg infile) (HTMLfiles (fst s))\<rparr>,
              add_code_entry ''html'' (code_file_of cfg infile) (snd s))"
  by (simp add: classify_def Let_def code_file_of_def HTMLfile_def)

lemma classify_css:
  "extension infile = ''css'' \<Longrightarrow>
     classify env cfg infile s
       = Inr ((fst s)\<lparr>CSSfiles := dict_set infile (code_file_of cfg infile) (CSSfiles (fst s))\<rparr>,
              add_code_entry ''css'' (code_file_of cfg infile) (snd s))"
  by (simp add: classify_def Let_def code_file_of_def CSSfile_def)

lemma classify_js:
  "extension infile = ''js'' \<Longrightarrow>
     classify env cfg infile s
       = Inr ((fst s)\<lparr>JSfiles := dict_set infile (code_file_of cfg infile) (JSfiles (fst s))\<rparr>,
              add_code_entry ''js'' (code_file_of cfg infile) (snd s))"
  by (simp add: classify_def Let_def code_file_of_def JSfile_def)

lemma classify_other:
  assumes "\<not> is_code infile" and "classify env cfg infile s = Inr s'"
  shows "HTMLfiles (fst s') = HTMLfiles (fst s)" and "CSSfiles (fst s') = CSSfiles (fst s)"
    and "JSfiles (fst s') = JSfiles (fst s)" and "snd s' = snd s"
  using assms
  by (auto simp: classify_def Let_def is_code_def split: if_splits option.splits)

lemma classify_cases:
  assumes "classify env cfg infile s = Inr s'"
  obtains
    (html) "extension infile = ''html''"
      "s' = ((fst s)\<lparr>HTMLfiles := dict_set infile (code_file_of cfg infile) (HTMLfiles (fst s))\<rparr>,
             add_code_entry ''html'' (code_file_of cfg infile) (snd s))"
  | (css) "extension infile = ''css''"
      "s' = ((fst s)\<lparr>CSSfiles := dict_set infile (code_file_of cfg infile) (CSSfiles (fst s))\<rparr>,
             add_code_entry ''css'' (code_file_of cfg infile) (snd s))"
  | (js) "extension infile = ''js''"
      "s' = ((fst s)\<lparr>JSfiles := dict_set infile (code_file_of cfg infile) (JSfiles (fst s))\<rparr>,
             add_code_entry ''js'' (code_file_of cfg infile) (snd s))"
  | (other) "\<not> is_code infile" "HTMLfiles (fst s') = HTMLfiles (fst s)"
      "CSSfiles (fst s') = CSSfiles (fst s)" "JSfiles (fst s') = JSfiles (fst s)" "snd s' = snd s"
proof (cases "is_code infile")
  case False
  with classify_other [OF False assms] other show ?thesis by blast
next
  case True
  then consider "extension infile = ''html''" | "extension infile = ''css''" | "extension infile = ''js''"
    by (auto simp: is_code_def)
  then show ?thesis
  proof cases
    case 1
    with assms classify_html [OF 1, of env cfg s] html show ?thesis by simp
  next
    case 2
    with assms classify_css [OF 2, of env cfg s] css show ?thesis by simp
  next
    case 3
    with assms classify_js [OF 3, of env cfg s] js show ?thesis by simp
  qed
qed

lemma snd_dict_set: "snd ` set (dict_set k v d) \<subseteq> insert v (snd ` set d)"
  using set_dict_set [of k v d] by auto

lemma dict_set_snd_keeps:
  assumes "fo \<in> snd ` set d" and "dict_ok cfg ext d"
  shows "fo \<in> snd ` set (dict_set k (code_file_of cfg k) d)"
proof -
  from assms(1) obtain k' where m: "(k', fo) \<in> set d" by auto
  with assms(2) have fo: "fo = code_file_of cfg k'" by (auto simp: dict_ok_def list_all_iff)
  show ?thesis
  proof (cases "k' = k")
    case True
    with fo dict_set_mem [of k "code_file_of cfg k" d] show ?thesis by force
  next
    case False
    from dict_set_keeps [OF m False] show ?thesis by force
  qed
qed

lemma classify_files_ok:
  assumes "classify env cfg infile s = Inr s'" and "files_ok cfg (fst s)"
  shows "files_ok cfg (fst s')"
  using assms(1)
proof (cases rule: classify_cases)
  case html
  with assms(2) show ?thesis by (simp add: files_ok_def dict_ok_dict_set)
next
  case css
  with assms(2) show ?thesis by (simp add: files_ok_def dict_ok_dict_set)
next
  case js
  with assms(2) show ?thesis by (simp add: files_ok_def dict_ok_dict_set)
next
  case other
  with assms(2) show ?thesis by (simp add: files_ok_def)
qed

lemma classify_reset:
  assumes "classify env cfg infile s = Inr s'"
    and "list_all (reset (snd s)) (documents (fst s))"
  shows "list_all (reset (snd s')) (documents (fst s'))"
  using assms(1)
proof (cases rule: classify_cases)
  case html
  from assms(2) have old: "fo \<in> set (documents (fst s)) \<Longrightarrow> reset (snd s') fo" for fo
    unfolding html(2) by (simp add: list_all_iff reset_add_code_entry)
  have new: "reset (snd s') (code_file_of cfg infile)"
    unfolding html(2) using html(1) by (simp add: reset_add_code_entry_self)
  have "set (documents (fst s')) \<subseteq> insert (code_file_of cfg infile) (set (documents (fst s)))"
    unfolding html(2) using snd_dict_set [of infile "code_file_of cfg infile" "HTMLfiles (fst s)"]
    by (auto simp: documents_def)
  with old new show ?thesis by (auto simp: list_all_iff)
next
  case css
  from assms(2) have old: "fo \<in> set (documents (fst s)) \<Longrightarrow> reset (snd s') fo" for fo
    unfolding css(2) by (simp add: list_all_iff reset_add_code_entry)
  have new: "reset (snd s') (code_file_of cfg infile)"
    unfolding css(2) using css(1) by (simp add: reset_add_code_entry_self)
  have "set (documents (fst s')) \<subseteq> insert (code_file_of cfg infile) (set (documents (fst s)))"
    unfolding css(2) using snd_dict_set [of infile "code_file_of cfg infile" "CSSfiles (fst s)"]
    by (auto simp: documents_def)
  with old new show ?thesis by (auto simp: list_all_iff)
next
  case js
  from assms(2) have old: "fo \<in> set (documents (fst s)) \<Longrightarrow> reset (snd s') fo" for fo
    unfolding js(2) by (simp add: list_all_iff reset_add_code_entry)
  have new: "reset (snd s') (code_file_of cfg infile)"
    unfolding js(2) using js(1) by (simp add: reset_add_code_entry_self)
  have "set (documents (fst s')) \<subseteq> insert (code_file_of cfg infile) (set (documents (fst s)))"
    unfolding js(2) using snd_dict_set [of infile "code_file_of cfg infile" "JSfiles (fst s)"]
    by (auto simp: documents_def)
  with old new show ?thesis by (auto simp: list_all_iff)
next
  case other
  with assms(2) show ?thesis by (simp add: documents_def)
qed

lemma classify_keeps:
  assumes "classify env cfg infile s = Inr s'" and "files_ok cfg (fst s)"
  shows "set (documents (fst s)) \<subseteq> set (documents (fst s'))"
  using assms(1)
proof (cases rule: classify_cases)
  case html
  from assms(2) have "dict_ok cfg ''html'' (HTMLfiles (fst s))" by (simp add: files_ok_def)
  from dict_set_snd_keeps [OF _ this, of _ infile] show ?thesis
    unfolding html(2) by (auto simp: documents_def)
next
  case css
  from assms(2) have "dict_ok cfg ''css'' (CSSfiles (fst s))" by (simp add: files_ok_def)
  from dict_set_snd_keeps [OF _ this, of _ infile] show ?thesis
    unfolding css(2) by (auto simp: documents_def)
next
  case js
  from assms(2) have "dict_ok cfg ''js'' (JSfiles (fst s))" by (simp add: files_ok_def)
  from dict_set_snd_keeps [OF _ this, of _ infile] show ?thesis
    unfolding js(2) by (auto simp: documents_def)
next
  case other
  then show ?thesis by (simp add: documents_def)
qed

lemma classify_adds:
  assumes "classify env cfg infile s = Inr s'" and "is_code infile"
  shows "code_file_of cfg infile \<in> set (documents (fst s'))"
  using assms(1)
proof (cases rule: classify_cases)
  case html
  from dict_set_mem [of infile "code_file_of cfg infile" "HTMLfiles (fst s)"] show ?thesis
    unfolding html(2) by (force simp: documents_def)
next
  case css
  from dict_set_mem [of infile "code_file_of cfg infile" "CSSfiles (fst s)"] show ?thesis
    unfolding css(2) by (force simp: documents_def)
next
  case js
  from dict_set_mem [of infile "code_file_of cfg infile" "JSfiles (fst s)"] show ?thesis
    unfolding js(2) by (force simp: documents_def)
next
  case other
  with assms(2) show ?thesis by simp
qed

lemma classify_all_invariants:
  assumes "classify_all env cfg ps s = Inr s'"
    and "files_ok cfg (fst s)" and "list_all (reset (snd s)) (documents (fst s))"
  shows "files_ok cfg (fst s')" and "list_all (reset (snd s')) (documents (fst s'))"
    and "set (documents (fst s)) \<subseteq> set (documents (fst s'))"
    and "p \<in> set ps \<Longrightarrow> is_code p \<Longrightarrow> code_file_of cfg p \<in> set (documents (fst s'))"
  using assms
proof (induction ps arbitrary: s)
  case Nil
  { case 1 then show ?case by simp }
  { case 2 then show ?case by simp }
  { case 3 then show ?case by simp }
  { case 4 then show ?case by simp }
next
  case (Cons infile ps)
  { case 1
    then obtain s1 where c: "classify env cfg infile s = Inr s1" and r: "classify_all env cfg ps s1 = Inr s'"
      by (auto split: sum.splits)
    from Cons.IH(1) [OF r classify_files_ok [OF c 1(2)] classify_reset [OF c 1(3)]]
    show ?case . }
  { case 2
    then obtain s1 where c: "classify env cfg infile s = Inr s1" and r: "classify_all env cfg ps s1 = Inr s'"
      by (auto split: sum.splits)
    from Cons.IH(2) [OF r classify_files_ok [OF c 2(2)] classify_reset [OF c 2(3)]]
    show ?case . }
  { case 3
    then obtain s1 where c: "classify env cfg infile s = Inr s1" and r: "classify_all env cfg ps s1 = Inr s'"
      by (auto split: sum.splits)
    from Cons.IH(3) [OF r classify_files_ok [OF c 3(2)] classify_reset [OF c 3(3)]]
      classify_keeps [OF c 3(2)]
    show ?case by blast }
  { case 4
    then obtain s1 where c: "classify env cfg infile s = Inr s1" and r: "classify_all env cfg ps s1 = Inr s'"
      by (auto split: sum.splits)
    note ok1 = classify_files_ok [OF c 4(4)] and rs1 = classify_reset [OF c 4(5)]
    show ?case
    proof (cases "p = infile")
      case True
      with classify_adds [OF c] 4(2) have "code_file_of cfg p \<in> set (documents (fst s1))" by simp
      with Cons.IH(3) [OF r ok1 rs1] show ?thesis by blast
    next
      case False
      with 4(1) have "p \<in> set ps" by simp
      from Cons.IH(4) [OF this 4(2) r ok1 rs1] show ?thesis .
    qed }
qed

lemma classify_doc_keys:
  assumes "classify env cfg infile s = Inr s'"
  shows "doc_keys (fst s') \<subseteq> insert infile (doc_keys (fst s))"
  using assms
proof (cases rule: classify_cases)
  case html
  then show ?thesis by (auto simp: doc_keys_def fst_dict_set)
next
  case css
  then show ?thesis by (auto simp: doc_keys_def fst_dict_set)
next
  case js
  then show ?thesis by (auto simp: doc_keys_def fst_dict_set)
next
  case other
  then show ?thesis by (auto simp: doc_keys_def)
qed

lemma classify_all_doc_keys:
  "classify_all env cfg ps s = Inr s' \<Longrightarrow> doc_keys (fst s') \<subseteq> set ps \<union> doc_keys (fst s)"
proof (induction ps arbitrary: s)
  case Nil
  then show ?case by simp
next
  case (Cons infile ps)
  then obtain s1 where c: "classify env cfg infile s = Inr s1" and r: "classify_all env cfg ps s1 = Inr s'"
    by (auto split: sum.splits)
  from Cons.IH [OF r] classify_doc_keys [OF c] show ?case by auto
qed

lemma dict_ok_map_key:
  assumes "dict_ok cfg ext d"
  shows "map map_key (map snd d) = map (\<lambda>k. (ext, str_path k)) (map fst d)"
  using assms by (auto simp: dict_ok_def list_all_iff map_key_def)

lemma dict_ok_distinct:
  assumes "dict_ok cfg ext d" and "inj_on str_path S" and "fst ` set d \<subseteq> S"
  shows "distinct (map map_key (map snd d))"
proof -
  from assms(2,3) have i: "inj_on (\<lambda>k. (ext, str_path k)) (set (map fst d))"
    by (auto simp: inj_on_def)
  from assms(1) have "distinct (map fst d)" by (simp add: dict_ok_def)
  with i distinct_map [of "\<lambda>k. (ext, str_path k)" "map fst d"]
  have "distinct (map (\<lambda>k. (ext, str_path k)) (map fst d))"
    by blast
  then show ?thesis unfolding dict_ok_map_key [OF assms(1)] .
qed

lemma dict_ok_fst_map_key:
  assumes "dict_ok cfg ext d" and "x \<in> set (map map_key (map snd d))"
  shows "fst x = ext"
  using assms(2) unfolding dict_ok_map_key [OF assms(1)] by auto

lemma documents_distinct:
  assumes "files_ok cfg fs" and "inj_on str_path S" and "doc_keys fs \<subseteq> S"
  shows "distinct (map map_key (documents fs))"
proof -
  let ?H = "map map_key (map snd (HTMLfiles fs))"
  let ?C = "map map_key (map snd (CSSfiles fs))"
  let ?J = "map map_key (map snd (JSfiles fs))"
  from assms(1) have h: "dict_ok cfg ''html'' (HTMLfiles fs)"
    and c: "dict_ok cfg ''css'' (CSSfiles fs)"
    and j: "dict_ok cfg ''js'' (JSfiles fs)"
    by (simp_all add: files_ok_def)
  from assms(3) have hs: "fst ` set (HTMLfiles fs) \<subseteq> S"
    and cs: "fst ` set (CSSfiles fs) \<subseteq> S"
    and js: "fst ` set (JSfiles fs) \<subseteq> S"
    by (simp_all add: doc_keys_def)
  have dH: "distinct ?H" by (rule dict_ok_distinct [OF h assms(2) hs])
  have dC: "distinct ?C" by (rule dict_ok_distinct [OF c assms(2) cs])
  have dJ: "distinct ?J" by (rule dict_ok_distinct [OF j assms(2) js])
  have hc: "set ?H \<inter> set ?C = {}"
  proof (rule ccontr)
    assume "set ?H \<inter> set ?C \<noteq> {}"
    then obtain x where "x \<in> set ?H" "x \<in> set ?C" by blast
    with dict_ok_fst_map_key [OF h] dict_ok_fst_map_key [OF c] have "''html'' = ''css''" by metis
    then show False by simp
  qed
  have hj: "set ?H \<inter> set ?J = {}"
  proof (rule ccontr)
    assume "set ?H \<inter> set ?J \<noteq> {}"
    then obtain x where "x \<in> set ?H" "x \<in> set ?J" by blast
    with dict_ok_fst_map_key [OF h] dict_ok_fst_map_key [OF j] have "''html'' = ''js''" by metis
    then show False by simp
  qed
  have cj: "set ?C \<inter> set ?J = {}"
  proof (rule ccontr)
    assume "set ?C \<inter> set ?J \<noteq> {}"
    then obtain x where "x \<in> set ?C" "x \<in> set ?J" by blast
    with dict_ok_fst_map_key [OF c] dict_ok_fst_map_key [OF j] have "''css'' = ''js''" by metis
    then show False by simp
  qed
  have "map map_key (documents fs) = ?H @ ?C @ ?J" by (simp add: documents_def)
  moreover have "distinct (?H @ ?C @ ?J)"
    unfolding distinct_append set_append using dH dC dJ hc hj cj by blast
  ultimately show ?thesis by simp
qed

lemma process_document_frame:
  assumes "process_document env cfg fo um = (r, um', evs)" and "(key, k) \<noteq> map_key fo"
  shows "sec um' key k = sec um key k"
  using assms
  by (auto simp: process_document_def Let_def map_key_def sec_set_entry
        split: option.splits if_splits)

lemma process_document_reset:
  assumes "process_document env cfg fo um = (r, um', evs)" and "map_key g \<noteq> map_key fo"
    and "reset um g"
  shows "reset um' g"
proof -
  from assms(2) have "(cf_extension g, str_path (cf_path g)) \<noteq> map_key fo"
    by (simp add: map_key_def)
  from process_document_frame [OF assms(1) this] assms(3) show ?thesis
    by (simp add: reset_def)
qed

lemma process_document_of_reset:
  assumes "reset um fo" and "read_text env (cf_path fo) = Some contents"
    and "is_code (cf_path fo)" and "cf_extension fo = extension (cf_path fo)"
    and "\<forall>t. hexdigest env MD5 t \<noteq> []"
  shows "\<exists>um' w u.
           process_document env cfg fo um
             = (None, um',
                Read_source (cf_path fo) True # Write_build (cf_path fo) w
                  # (if w then [Upload_page (cf_path fo) u] else []))"
proof -
  from assms(3,4) obtain processed where p: "parse env cfg fo contents um = Some processed"
    by (auto simp: parse_def is_code_def Let_def)
  from assms(1) obtain e where e: "sec um (cf_extension fo) (str_path (cf_path fo)) = Some e" "md5 e = Some []"
    by (auto simp: reset_def)
  from assms(5) have h: "build_hash env processed \<noteq> []" by (simp add: build_hash_def)
  let ?w = "write_build env (cf_path fo) processed"
  have "process_document env cfg fo um
          = (None,
             set_entry um (cf_extension fo) (str_path (cf_path fo)) (e\<lparr>md5 := Some (build_hash env processed)\<rparr>),
             Read_source (cf_path fo) True # Write_build (cf_path fo) ?w
               # (if ?w then [Upload_page (cf_path fo) (iGEM_upload_page env processed (cf_upload_URL fo))] else []))"
    using e h assms(2) p by (simp add: process_document_def Let_def)
  then show ?thesis by blast
qed

lemma process_documents_write:
  assumes "process_documents env cfg fos um = (None, um', evs)"
    and "fo \<in> set fos" and "distinct (map map_key fos)" and "list_all (reset um) fos"
    and "read_text env (cf_path fo) = Some contents"
    and "is_code (cf_path fo)" and "cf_extension fo = extension (cf_path fo)"
    and "\<forall>t. hexdigest env MD5 t \<noteq> []"
  shows "\<exists>w. Write_build (cf_path fo) w \<in> set evs
             \<and> (w \<longrightarrow> (\<exists>u. Upload_page (cf_path fo) u \<in> set evs))"
  using assms(1-4)
proof (induction fos arbitrary: um um' evs)
  case Nil
  then show ?case by simp
next
  case (Cons f fos)
  obtain r1 um1 evs1 where s: "process_document env cfg f um = (r1, um1, evs1)"
    by (cases "process_document env cfg f um") auto
  obtain r2 um2 evs2 where l0: "process_documents env cfg fos um1 = (r2, um2, evs2)"
    by (cases "process_documents env cfg fos um1") auto
  from Cons.prems(1) s have r1: "r1 = None" by (cases r1) simp_all
  with Cons.prems(1) s l0 have l: "process_documents env cfg fos um1 = (None, um', evs2)"
    and evs: "evs = evs1 @ evs2" by simp_all
  show ?case
  proof (cases "fo = f")
    case True
    from Cons.prems(4) True have "reset um fo" by simp
    from process_document_of_reset [OF this assms(5-8), of cfg]
    obtain um'' w u where "process_document env cfg fo um
             = (None, um'', Read_source (cf_path fo) True # Write_build (cf_path fo) w
                  # (if w then [Upload_page (cf_path fo) u] else []))" by blast
    with s True have e1: "evs1 = Read_source (cf_path fo) True # Write_build (cf_path fo) w
                  # (if w then [Upload_page (cf_path fo) u] else [])" by simp
    have a: "Write_build (cf_path fo) w \<in> set evs" unfolding evs e1 by simp
    have b: "w \<longrightarrow> Upload_page (cf_path fo) u \<in> set evs" unfolding evs e1 by simp
    from a b show ?thesis by blast
  next
    case False
    with Cons.prems(2) have mem: "fo \<in> set fos" by simp
    from Cons.prems(3) have d: "distinct (map map_key fos)" by simp
    from Cons.prems(3) have "map_key f \<notin> map_key ` set fos" by simp
    then have nf: "g \<in> set fos \<Longrightarrow> map_key g \<noteq> map_key f" for g by (metis imageI)
    have "reset um1 g" if "g \<in> set fos" for g
    proof -
      from Cons.prems(4) that have "reset um g" by (simp add: list_all_iff)
      from process_document_reset [OF s [unfolded r1] nf [OF that] this] show ?thesis .
    qed
    then have ra: "list_all (reset um1) fos" by (simp add: list_all_iff)
    from Cons.IH [OF l mem d ra] obtain w where
      "Write_build (cf_path fo) w \<in> set evs2" "w \<longrightarrow> (\<exists>u. Upload_page (cf_path fo) u \<in> set evs2)"
      by blast
    then have "Write_build (cf_path fo) w \<in> set evs \<and> (w \<longrightarrow> (\<exists>u. Upload_page (cf_path fo) u \<in> set evs))"
      unfolding evs by auto
    then show ?thesis by blast
  qed
qed

lemma documents_extension:
  assumes "files_ok cfg fs" and "g \<in> set (documents fs)"
  shows "cf_extension g \<noteq> ''assets''"
proof -
  from assms(2) consider "g \<in> snd ` set (HTMLfiles fs)" | "g \<in> snd ` set (CSSfiles fs)"
    | "g \<in> snd ` set (JSfiles fs)"
    by (auto simp: documents_def)
  then show ?thesis
  proof cases
    case 1
    with assms(1) show ?thesis by (auto simp: files_ok_def dict_ok_def list_all_iff)
  next
    case 2
    with assms(1) show ?thesis by (auto simp: files_ok_def dict_ok_def list_all_iff)
  next
    case 3
    with assms(1) show ?thesis by (auto simp: files_ok_def dict_ok_def list_all_iff)
  qed
qed

lemma main_returns:
  assumes "config_yml env = Some cfg" and "fst (main env) = None"
  obtains s um2 evs um3 evs' where
    "classify_all env cfg (walk env) (no_files, load_upload_map (upload_map_yml env)) = Inr s"
    "upload_assets env (map snd (OtherFiles (fst s))) (snd s) = (None, um2, evs)"
    "process_documents env cfg (documents (fst s)) um2 = (None, um3, evs')"
    "main env = (None, um3, evs @ [Write_upload_map um2] @ evs' @ [Write_upload_map um3])"
proof -
  let ?um0 = "load_upload_map (upload_map_yml env)"
  from assms have login: "iGEM_login env"
    by (cases "iGEM_login env") (simp_all add: main_def)
  from assms login obtain s where c: "classify_all env cfg (walk env) (no_files, ?um0) = Inr s"
    by (cases "classify_all env cfg (walk env) (no_files, ?um0)") (simp_all add: main_def)
  obtain r2 um2 evs where a: "upload_assets env (map snd (OtherFiles (fst s))) (snd s) = (r2, um2, evs)"
    by (cases "upload_assets env (map snd (OtherFiles (fst s))) (snd s)") auto
  from assms login c a have r2: "r2 = None"
    by (cases r2) (simp_all add: main_def)
  obtain r3 um3 evs' where d: "process_documents env cfg (documents (fst s)) um2 = (r3, um3, evs')"
    by (cases "process_documents env cfg (documents (fst s)) um2") auto
  from assms login c a r2 d have r3: "r3 = None"
    by (cases r3) (simp_all add: main_def documents_def)
  from assms login c a r2 d r3
  have "main env = (None, um3, evs @ [Write_upload_map um2] @ evs' @ [Write_upload_map um3])"
    by (simp add: main_def documents_def)
  with c a d r2 r3 that show ?thesis by blast
qed

lemma documents_are_never_cached:
  assumes cfg: "config_yml env = Some cfg" and returns: "fst (main env) = None"
    and p: "p \<in> set (walk env)" "is_code p" "read_text env p = Some contents"
    and digest: "\<forall>t. hexdigest env MD5 t \<noteq> []"
    and inj: "inj_on str_path (set (walk env))"
  shows "\<exists>w. Write_build p w \<in> set (snd (snd (main env)))
             \<and> (w \<longrightarrow> (\<exists>u. Upload_page p u \<in> set (snd (snd (main env)))))"
proof -
  from main_returns [OF cfg returns] obtain s um2 evs um3 evs' where
    c: "classify_all env cfg (walk env) (no_files, load_upload_map (upload_map_yml env)) = Inr s"
    and a: "upload_assets env (map snd (OtherFiles (fst s))) (snd s) = (None, um2, evs)"
    and d: "process_documents env cfg (documents (fst s)) um2 = (None, um3, evs')"
    and m: "main env = (None, um3, evs @ [Write_upload_map um2] @ evs' @ [Write_upload_map um3])"
    by blast
  have ok0: "files_ok cfg (fst (no_files, load_upload_map (upload_map_yml env)))"
    by (simp add: files_ok_def dict_ok_def no_files_def)
  have rs0: "list_all (reset (snd (no_files, load_upload_map (upload_map_yml env))))
               (documents (fst (no_files, load_upload_map (upload_map_yml env))))"
    by (simp add: documents_def no_files_def)
  note inv = classify_all_invariants [OF c ok0 rs0]
  from inv(4) [OF p(1,2)] have mem: "code_file_of cfg p \<in> set (documents (fst s))" .
  from classify_all_doc_keys [OF c] have "doc_keys (fst s) \<subseteq> set (walk env)"
    by (simp add: doc_keys_def no_files_def)
  from documents_distinct [OF inv(1) inj this] have dist: "distinct (map map_key (documents (fst s)))" .
  have "reset um2 g" if "g \<in> set (documents (fst s))" for g
  proof -
    from inv(2) that have "reset (snd s) g" by (simp add: list_all_iff)
    moreover from upload_assets_frame(3) [OF a documents_extension [OF inv(1) that]]
    have "um2 (cf_extension g) = snd s (cf_extension g)" .
    ultimately show ?thesis by (simp add: reset_def sec_def)
  qed
  then have rs: "list_all (reset um2) (documents (fst s))" by (simp add: list_all_iff)
  have "\<exists>w. Write_build (cf_path (code_file_of cfg p)) w \<in> set evs'
          \<and> (w \<longrightarrow> (\<exists>u. Upload_page (cf_path (code_file_of cfg p)) u \<in> set evs'))"
    by (rule process_documents_write [OF d mem dist rs _ _ _ digest, of contents])
       (simp_all add: p)
  then obtain w where "Write_build p w \<in> set evs'" "w \<longrightarrow> (\<exists>u. Upload_page p u \<in> set evs')"
    by auto
  then have "Write_build p w \<in> set (snd (snd (main env)))
             \<and> (w \<longrightarrow> (\<exists>u. Upload_page p u \<in> set (snd (snd (main env)))))"
    unfolding m by auto
  then show ?thesis by blast
qed

text \<open>
  Claim C1 fails on the code. A first run over the example tree uploads the asset and the
  page and returns; \<open>upload_map.yml\<close> then holds the digest of the transformed page. The
  second run, over the same tree, skips the asset but uploads the unchanged page again:
  classification has reset its stored digest to the empty string.
\<close>

theorem second_run_uploads_unchanged_page:
  "fst (main example_env) = None
   \<and> uploads (snd (snd (main example_env)))
       = [Upload_file [''assets'', ''logo.png''] True, Upload_page [''index.html''] True]
   \<and> stored_md5 (upload_map_yml (rerun example_env)) ''html'' ''index.html''
       = Some (build_hash example_env [])
   \<and> fst (main (rerun example_env)) = None
   \<and> uploads (snd (snd (main (rerun example_env)))) = [Upload_page [''index.html''] True]"
  by (simp add: rerun_def uploads_def stored_md5_def run_defs)

text \<open>
  Claim C10 fails on the code in its last part. When the page upload fails, the map
  written at the end of the run does record the new digest; but the next run over the
  same tree does not take the cache-hit path: it attempts the upload again.
\<close>

theorem failed_page_upload_is_retried:
  "uploads (snd (snd (main failing_page_env)))
       = [Upload_file [''assets'', ''logo.png''] True, Upload_page [''index.html''] False]
   \<and> stored_md5 (upload_map_yml (rerun failing_page_env)) ''html'' ''index.html''
       = Some (build_hash failing_page_env [])
   \<and> uploads (snd (snd (main (rerun failing_page_env)))) = [Upload_page [''index.html''] False]"
  by (simp add: rerun_def uploads_def stored_md5_def failing_page_env_def run_defs)

section \<open>A malformed stored map\<close>

text \<open>
  Claim C4 fails on the code. With \<open>js\<close> bound to a scalar the check raises SystemExit,
  but inside the \<open>try\<close> whose bare \<open>except\<close> catches it: the map is replaced by the
  four empty mappings and the run goes on, uploads the asset the stored map already knew
  and the page, and returns.
\<close>

theorem js_scalar_is_swallowed:
  "load_try (Dict js_scalar_map) = Inl SystemExit
   \<and> load_upload_map (Dict js_scalar_map) = empty_upload_map
   \<and> fst (main js_scalar_env) = None
   \<and> uploads (snd (snd (main js_scalar_env)))
       = [Upload_file [''assets'', ''logo.png''] True, Upload_page [''index.html''] True]"
  by (simp add: uploads_def js_scalar_env_def js_scalar_map_def run_defs)

section \<open>The digest algorithms\<close>

text \<open>
  Claim C9 fails on the code. The digest of an asset is the SHA-1 of its bytes
  (\<open>_generate_md5_hash\<close> calls \<open>hashlib.sha1()\<close>), the digest of a document is the MD5
  of its transformed text: two algorithms, not one.
\<close>

theorem asset_digest_is_sha1_document_digest_is_md5:
  "OtherFile_generate_md5_hash env p = map_option (hexdigest env SHA1) (read_bytes env p)
   \<and> build_hash env processed = hexdigest env MD5 processed
   \<and> OtherFile_generate_md5_hash example_env [''assets'', ''logo.png'']
       = Some ''da39a3ee5e6b4b0d3255bfef95601890afd80709''
   \<and> build_hash example_env [] = ''d41d8cd98f00b204e9800998ecf8427e''"
  by (simp add: OtherFile_generate_md5_hash_eq build_hash_def example_env_def hashlib_of_empty_def)

end
